theory Spec2Isabelle
  imports Complex_Main "HOL-Library.Multiset"
begin

section \<open>Catalog synchronization pipeline of the number-rental storefront\<close>

text \<open>
  The development embeds the batch updater (\<^verbatim>\<open>withRetry\<close> and \<^verbatim>\<open>runUpdate\<close>),
  the country resolver (\<^verbatim>\<open>country-mapper.js\<close>) and the price converter
  (\<^verbatim>\<open>priceConverter.js\<close>).

  Numbers. The prices, rates and counts of the pipeline are JavaScript numbers: IEEE 754
  doubles with \<^verbatim>\<open>NaN\<close> and the two infinities, every operation rounded to the nearest
  double, ties to even. The wait times of the retry executor are kept as exact rationals.

  Strings. A JavaScript string is modelled as a \<^typ>\<open>string\<close> holding its UTF-8 bytes.
  \<^verbatim>\<open>toLowerCase\<close>, \<^verbatim>\<open>toUpperCase\<close>, \<^verbatim>\<open>trim\<close>, \<^verbatim>\<open>charAt\<close> and \<^verbatim>\<open>slice\<close>
  belong to the JavaScript runtime and depend on Unicode tables: they are parameters of the
  model, so that every general statement holds for whatever the runtime computes.

  Objects. A property read \<^verbatim>\<open>table[key]\<close> follows the prototype chain; a table is therefore
  given by what its reads return, not by its own keys alone.
\<close>

subsection \<open>Retry executor: \<^verbatim>\<open>withRetry\<close>\<close>

text \<open>
  A rejected call carries \<^verbatim>\<open>error.response.status\<close> when there is a response
  (\<open>None\<close> when \<^verbatim>\<open>error.response\<close> is undefined) and \<^verbatim>\<open>error.message\<close>.
\<close>

record http_error =
  status :: "int option"
  message :: string

datatype 'a attempt = Resolved 'a | Rejected http_error

text \<open>What the executor does to the outside world: it calls \<^verbatim>\<open>fn\<close> and it sleeps.\<close>

datatype event = Invoked | Slept rat

text \<open>\<^verbatim>\<open>status === 429 || status >= 500\<close>; both are false for an undefined status.\<close>

definition retryable :: "http_error \<Rightarrow> bool" where
  "retryable error = (case status error of None \<Rightarrow> False
                      | Some st \<Rightarrow> st = 429 \<or> st \<ge> 500)"

text \<open>
  The \<^verbatim>\<open>for (let i = 0; i < retries; i++)\<close> loop. \<open>fn i\<close> is the outcome of the call made
  in iteration \<open>i\<close> (the closure may answer differently each time), \<open>random i\<close> is the value
  \<^verbatim>\<open>Math.random()\<close> returns in iteration \<open>i\<close>. The result is \<open>Inr v\<close> for
  \<^verbatim>\<open>return v\<close> and \<open>Inl e\<close> for \<^verbatim>\<open>throw e\<close>, where \<open>e = None\<close> is
  \<^verbatim>\<open>lastError\<close> still undefined; the second component is the trace of calls and sleeps.
\<close>

function retry_loop ::
  "(nat \<Rightarrow> 'a attempt) \<Rightarrow> (nat \<Rightarrow> rat) \<Rightarrow> nat \<Rightarrow> rat \<Rightarrow> rat \<Rightarrow> nat \<Rightarrow> http_error option
    \<Rightarrow> (http_error option + 'a) \<times> event list" where
  "retry_loop fn random retries delay jitter i lastError =
     (if i < retries then
        (case fn i of
           Resolved v \<Rightarrow> (Inr v, [Invoked])
         | Rejected error \<Rightarrow>
             if retryable error then
               (let jitterValue = random i * jitter;
                    waitTime = delay * 2 ^ i + jitterValue;
                    (r, evs) = retry_loop fn random retries delay jitter (Suc i) (Some error)
                in (r, Invoked # Slept waitTime # evs))
             else (Inl (Some error), [Invoked]))
      else (Inl lastError, []))"
  by pat_completeness auto
termination
  by (relation "measure (\<lambda>(fn, random, retries, delay, jitter, i, lastError). retries - i)") auto

declare retry_loop.simps [simp del]

definition withRetry ::
  "(nat \<Rightarrow> 'a attempt) \<Rightarrow> (nat \<Rightarrow> rat) \<Rightarrow> nat \<Rightarrow> rat \<Rightarrow> rat
    \<Rightarrow> (http_error option + 'a) \<times> event list" where
  "withRetry fn random retries delay jitter = retry_loop fn random retries delay jitter 0 None"

definition invocations :: "event list \<Rightarrow> nat" where
  "invocations evs = length (filter (\<lambda>e. e = Invoked) evs)"


text \<open>
  Helpers used to state the trace of the executor: the error a rejected call carries, and
  the calls and sleeps of \<open>n\<close> consecutive retried iterations starting at iteration \<open>k\<close>.
\<close>

fun rejection :: "'a attempt \<Rightarrow> http_error option" where
  "rejection (Rejected error) = Some error"
| "rejection (Resolved v) = None"

definition backoffs :: "(nat \<Rightarrow> rat) \<Rightarrow> rat \<Rightarrow> rat \<Rightarrow> nat \<Rightarrow> nat \<Rightarrow> event list" where
  "backoffs random delay jitter k n =
     concat (map (\<lambda>j. [Invoked, Slept (delay * 2 ^ j + random j * jitter)]) [k..<k + n])"

definition error500 :: http_error where
  "error500 = \<lparr>status = Some 500, message = ''Internal Server Error''\<rparr>"

definition error404 :: http_error where
  "error404 = \<lparr>status = Some 404, message = ''Not Found''\<rparr>"

subsection \<open>Numbers\<close>

text \<open>
  A number is \<^verbatim>\<open>NaN\<close>, an infinity or a finite double, given by its sign bit (\<open>True\<close> for
  negative) and its magnitude; \<open>Finite True 0\<close> is the negative zero.
\<close>

datatype number = NaN | Infinity bool | Finite bool rat

function pow2_nonneg :: "int \<Rightarrow> rat" where
  "pow2_nonneg k =
     (if k \<le> 0 then 1
      else let h = pow2_nonneg (k div 2) in if even k then h * h else 2 * (h * h))"
  by pat_completeness auto
termination
  by (relation "measure nat") auto

declare pow2_nonneg.simps [simp del]

text \<open>The power of two with an integer exponent.\<close>

definition pow2 :: "int \<Rightarrow> rat" where
  "pow2 k = (if 0 \<le> k then pow2_nonneg k else 1 / pow2_nonneg (- k))"

text \<open>The number of binary digits of a positive integer.\<close>

function bit_length :: "int \<Rightarrow> int" where
  "bit_length n = (if n \<le> 0 then 0 else 1 + bit_length (n div 2))"
  by pat_completeness auto
termination
  by (relation "measure nat") auto

declare bit_length.simps [simp del]

text \<open>The binary exponent of a positive rational \<open>a\<close>: the \<open>e\<close> with \<open>2^e \<le> a < 2^(e+1)\<close>.\<close>

definition exponent :: "rat \<Rightarrow> int" where
  "exponent a = (if 1 \<le> a then bit_length \<lfloor>a\<rfloor> - 1 else - bit_length (\<lceil>1 / a\<rceil> - 1))"

definition round_half_even :: "rat \<Rightarrow> int" where
  "round_half_even z =
     (let f = \<lfloor>z\<rfloor>; r = z - of_int f
      in if r < 1 / 2 then f else if 1 / 2 < r then f + 1 else if even f then f else f + 1)"

text \<open>
  Rounding of an exact magnitude to the nearest double: 53 significant bits, the least
  exponent \<open>-1022\<close> (below it the spacing stays \<open>2^-1074\<close>), overflow to infinity from
  \<open>2^1024\<close> on.
\<close>

definition to_double :: "bool \<Rightarrow> rat \<Rightarrow> number" where
  "to_double negative a =
     (if a = 0 then Finite negative 0
      else
        let e = max (exponent a) (- 1022);
            q = pow2 (e - 52);
            n = round_half_even (a / q)
        in if 1024 \<le> e \<or> (e = 1023 \<and> 9007199254740992 \<le> n) then Infinity negative
           else Finite negative (of_int n * q))"

text \<open>The double a decimal literal of the source denotes.\<close>

definition double :: "rat \<Rightarrow> number" where
  "double x = to_double (x < 0) \<bar>x\<bar>"

fun js_mul :: "number \<Rightarrow> number \<Rightarrow> number" where
  "js_mul NaN y = NaN"
| "js_mul x NaN = NaN"
| "js_mul (Infinity s) (Infinity t) = Infinity (s \<noteq> t)"
| "js_mul (Infinity s) (Finite t b) = (if b = 0 then NaN else Infinity (s \<noteq> t))"
| "js_mul (Finite s a) (Infinity t) = (if a = 0 then NaN else Infinity (s \<noteq> t))"
| "js_mul (Finite s a) (Finite t b) = to_double (s \<noteq> t) (a * b)"

fun js_div :: "number \<Rightarrow> number \<Rightarrow> number" where
  "js_div NaN y = NaN"
| "js_div x NaN = NaN"
| "js_div (Infinity s) (Infinity t) = NaN"
| "js_div (Infinity s) (Finite t b) = Infinity (s \<noteq> t)"
| "js_div (Finite s a) (Infinity t) = Finite (s \<noteq> t) 0"
| "js_div (Finite s a) (Finite t b) =
     (if b = 0 then (if a = 0 then NaN else Infinity (s \<noteq> t))
      else to_double (s \<noteq> t) (a / b))"

fun js_add :: "number \<Rightarrow> number \<Rightarrow> number" where
  "js_add NaN y = NaN"
| "js_add x NaN = NaN"
| "js_add (Infinity s) (Infinity t) = (if s = t then Infinity s else NaN)"
| "js_add (Infinity s) (Finite t b) = Infinity s"
| "js_add (Finite s a) (Infinity t) = Infinity t"
| "js_add (Finite s a) (Finite t b) =
     (let v = (if s then - a else a) + (if t then - b else b)
      in if v = 0 then Finite (s \<and> t) 0 else to_double (v < 0) \<bar>v\<bar>)"

text \<open>\<^verbatim>\<open>Math.ceil\<close>\<close>

fun js_ceil :: "number \<Rightarrow> number" where
  "js_ceil NaN = NaN"
| "js_ceil (Infinity s) = Infinity s"
| "js_ceil (Finite s a) =
     (if s then Finite True (of_int \<lfloor>a\<rfloor>) else Finite False (of_int \<lceil>a\<rceil>))"

text \<open>\<^verbatim>\<open>x <= 0\<close> and \<^verbatim>\<open>x > 0\<close>: both are false for \<^verbatim>\<open>NaN\<close>.\<close>

fun js_le0 :: "number \<Rightarrow> bool" where
  "js_le0 NaN = False"
| "js_le0 (Infinity s) = s"
| "js_le0 (Finite s a) = (s \<or> a = 0)"

fun js_gt0 :: "number \<Rightarrow> bool" where
  "js_gt0 NaN = False"
| "js_gt0 (Infinity s) = (\<not> s)"
| "js_gt0 (Finite s a) = (\<not> s \<and> 0 < a)"

text \<open>A number is falsy when it is \<^verbatim>\<open>NaN\<close> or a zero; \<^verbatim>\<open>x || y\<close> on numbers.\<close>

fun truthy_number :: "number \<Rightarrow> bool" where
  "truthy_number NaN = False"
| "truthy_number (Infinity s) = True"
| "truthy_number (Finite s a) = (a \<noteq> 0)"

definition number_or :: "number \<Rightarrow> number \<Rightarrow> number" where
  "number_or x y = (if truthy_number x then x else y)"

subsection \<open>Strings\<close>

text \<open>
  The string functions of the runtime. \<open>charAt0\<close> is \<^verbatim>\<open>word.charAt(0)\<close> and \<open>slice1\<close> is
  \<^verbatim>\<open>word.slice(1)\<close>.
\<close>

record js_runtime =
  toLowerCase :: "string \<Rightarrow> string"
  toUpperCase :: "string \<Rightarrow> string"
  trim :: "string \<Rightarrow> string"
  charAt0 :: "string \<Rightarrow> string"
  slice1 :: "string \<Rightarrow> string"

text \<open>
  What these functions compute on strings of ASCII characters; the concrete inputs below
  are such strings.
\<close>

definition upper_chars :: string where
  "upper_chars = ''ABCDEFGHIJKLMNOPQRSTUVWXYZ''"

definition lower_chars :: string where
  "lower_chars = ''abcdefghijklmnopqrstuvwxyz''"

definition digit_chars :: string where
  "digit_chars = ''0123456789''"

definition lower_char :: "char \<Rightarrow> char" where
  "lower_char c = (case map_of (zip upper_chars lower_chars) c of Some d \<Rightarrow> d | None \<Rightarrow> c)"

definition upper_char :: "char \<Rightarrow> char" where
  "upper_char c = (case map_of (zip lower_chars upper_chars) c of Some d \<Rightarrow> d | None \<Rightarrow> c)"

text \<open>The ASCII white space: space, tab, line feed, vertical tab, form feed, carriage
  return.\<close>

definition is_space :: "char \<Rightarrow> bool" where
  "is_space c = (c \<in> set [CHR '' '', CHR 0x09, CHR 0x0A, CHR 0x0B, CHR 0x0C, CHR 0x0D])"

definition ascii_runtime :: js_runtime where
  "ascii_runtime =
     \<lparr>toLowerCase = map lower_char,
      toUpperCase = map upper_char,
      trim = (\<lambda>str. rev (dropWhile is_space (rev (dropWhile is_space str)))),
      charAt0 = take 1,
      slice1 = drop 1\<rparr>"

text \<open>\<^verbatim>\<open>str.split(' ')\<close> and \<^verbatim>\<open>words.join(' ')\<close>.\<close>

fun split_space :: "string \<Rightarrow> string list" where
  "split_space [] = [[]]"
| "split_space (c # cs) =
     (if c = CHR '' '' then [] # split_space cs
      else (case split_space cs of [] \<Rightarrow> [[c]] | w # ws \<Rightarrow> (c # w) # ws))"

fun join_space :: "string list \<Rightarrow> string" where
  "join_space [] = []"
| "join_space [w] = w"
| "join_space (w # ws) = w @ '' '' @ join_space ws"

subsection \<open>Values and objects\<close>

text \<open>
  A value read from a table: \<^verbatim>\<open>undefined\<close>, a string, or any other value (a number, a
  boolean, \<^verbatim>\<open>null\<close>, an object, a function), of which the model keeps what the code
  uses: whether it is truthy and the string it converts to in a template literal.
\<close>

datatype js_value = Undefined | Str string | Other bool string

fun truthy :: "js_value \<Rightarrow> bool" where
  "truthy Undefined = False"
| "truthy (Str str) = (str \<noteq> [])"
| "truthy (Other b str) = b"

fun to_text :: "js_value \<Rightarrow> string" where
  "to_text Undefined = ''undefined''"
| "to_text (Str str) = str"
| "to_text (Other b str) = str"

text \<open>
  An object used as a table: the keys a \<^verbatim>\<open>for ... in\<close> loop enumerates, in its order, and
  the value a property read returns for a key, inherited properties included.
\<close>

record js_object =
  keys_of :: "string list"
  read :: "string \<Rightarrow> js_value"

text \<open>
  What a read of a plain object returns for a key that is not its own: the members of
  \<^verbatim>\<open>Object.prototype\<close>, all of them functions except \<^verbatim>\<open>__proto__\<close>.
\<close>

definition prototype_functions :: "string list" where
  "prototype_functions =
     [''constructor'', ''hasOwnProperty'', ''isPrototypeOf'', ''propertyIsEnumerable'',
      ''toLocaleString'', ''toString'', ''valueOf'', ''__defineGetter__'', ''__defineSetter__'',
      ''__lookupGetter__'', ''__lookupSetter__'']"

definition function_name :: "string \<Rightarrow> string" where
  "function_name k = (if k = ''constructor'' then ''Object'' else k)"

definition object_prototype :: "string \<Rightarrow> js_value" where
  "object_prototype k =
     (if k \<in> set prototype_functions
        then Other True (''function '' @ function_name k @ ''() { [native code] }'')
      else if k = ''__proto__'' then Other True ''[object Object]''
      else Undefined)"

text \<open>The plain object with the given own properties, listed in \<^verbatim>\<open>for ... in\<close> order.\<close>

definition plain_object :: "(string \<times> js_value) list \<Rightarrow> js_object" where
  "plain_object props =
     \<lparr>keys_of = map fst props,
      read = (\<lambda>k. case map_of props k of Some v \<Rightarrow> v | None \<Rightarrow> object_prototype k)\<rparr>"

subsection \<open>Country resolver: \<^verbatim>\<open>country-mapper.js\<close>\<close>

text \<open>\<^verbatim>\<open>name.toLowerCase().replace(/[^a-z0-9]/g, '')\<close>\<close>

definition generateCanonicalName :: "js_runtime \<Rightarrow> string \<Rightarrow> string" where
  "generateCanonicalName rt name =
     filter (\<lambda>c. c \<in> set (lower_chars @ digit_chars)) (toLowerCase rt name)"

record country_data =
  persian :: js_value
  code :: js_value
  original :: string

text \<open>
  The three tables (\<^verbatim>\<open>sms-activate-countries.json\<close>, \<^verbatim>\<open>translations\<close>,
  \<^verbatim>\<open>country-codes\<close>) are not part of the sources at hand; they are parameters. The
  provider's list is given by the ids its \<^verbatim>\<open>for ... in\<close> loop enumerates, each with the
  name read under it, a string (\<^verbatim>\<open>generateCanonicalName\<close> calls its \<^verbatim>\<open>toLowerCase\<close>).

  First loop: one provider-supplied country (\<open>id\<close>, \<open>name\<close>).
\<close>

definition add_provider_country ::
  "js_runtime \<Rightarrow> js_object \<Rightarrow> js_object \<Rightarrow> (string \<rightharpoonup> country_data) \<Rightarrow> string \<times> string
    \<Rightarrow> (string \<rightharpoonup> country_data)" where
  "add_provider_country rt countryTranslations countryCodes m entry =
     (let name = snd entry;
          canonicalName = generateCanonicalName rt name;
          persianName = read countryTranslations canonicalName;
          codeValue = read countryCodes canonicalName
      in if truthy persianName \<and> truthy codeValue then
           m(canonicalName \<mapsto> \<lparr>persian = persianName, code = codeValue, original = name\<rparr>)
         else m)"

text \<open>Second loop: one enumerated key of the translation table.\<close>

definition add_translation ::
  "js_runtime \<Rightarrow> js_object \<Rightarrow> js_object \<Rightarrow> (string \<rightharpoonup> country_data) \<Rightarrow> string
    \<Rightarrow> (string \<rightharpoonup> country_data)" where
  "add_translation rt countryTranslations countryCodes m key =
     (let canonicalName = generateCanonicalName rt key
      in if m canonicalName = None then
           (let codeValue = read countryCodes canonicalName
            in if truthy codeValue then
                 m(canonicalName \<mapsto> \<lparr>persian = read countryTranslations key, code = codeValue,
                                       original = key\<rparr>)
               else m)
         else m)"

definition unifiedCountryMap ::
  "js_runtime \<Rightarrow> (string \<times> string) list \<Rightarrow> js_object \<Rightarrow> js_object
    \<Rightarrow> (string \<rightharpoonup> country_data)" where
  "unifiedCountryMap rt smsActivateCountries countryTranslations countryCodes =
     foldl (add_translation rt countryTranslations countryCodes)
       (foldl (add_provider_country rt countryTranslations countryCodes) Map.empty
          smsActivateCountries)
       (keys_of countryTranslations)"

definition getCountryDataByCanonicalName ::
  "js_runtime \<Rightarrow> (string \<rightharpoonup> country_data) \<Rightarrow> string \<Rightarrow> country_data option" where
  "getCountryDataByCanonicalName rt m name = m (generateCanonicalName rt name)"

subsection \<open>Price converter of the read path: \<^verbatim>\<open>priceConverter.js\<close>\<close>

record rates =
  rub :: number
  usd :: number

text \<open>\<^verbatim>\<open>parseFloat(process.env.PROFIT_MARGIN) || 0.4\<close> and
  \<^verbatim>\<open>parseInt(process.env.ROUNDING_PRECISION, 10) || 100\<close>: the argument is the parsed
  environment value, \<^verbatim>\<open>NaN\<close> when the variable is not set.\<close>

definition PROFIT_MARGIN :: "number \<Rightarrow> number" where
  "PROFIT_MARGIN parsed = number_or parsed (double (4 / 10))"

definition ROUNDING_PRECISION :: "number \<Rightarrow> number" where
  "ROUNDING_PRECISION parsed = number_or parsed (Finite False 100)"

definition convertToToman :: "number \<Rightarrow> number \<Rightarrow> number \<Rightarrow> string \<Rightarrow> rates \<Rightarrow> number" where
  "convertToToman envMargin envPrecision price currency rs =
     (let rate = (if currency = ''RUB'' then rub rs
                  else if currency = ''USD'' then usd rs
                  else Finite False 1);
          convertedPrice = js_mul price rate
      in js_mul
           (js_ceil (js_div (js_mul convertedPrice (js_add (Finite False 1) (PROFIT_MARGIN envMargin)))
                            (ROUNDING_PRECISION envPrecision)))
           (ROUNDING_PRECISION envPrecision))"

subsection \<open>Price normalizer and identity merger: the loop of \<^verbatim>\<open>runUpdate\<close>\<close>

text \<open>
  The adapters that fill \<^verbatim>\<open>allServicesRaw\<close> are not modelled: the loop is stated for
  every list of raw records.

  A raw record as the two adapters push it on \<^verbatim>\<open>allServicesRaw\<close>; the tokens are
  strings. \<open>service_name\<close> is present for sms-activate records only. \<open>price\<close> is the number
  \<^verbatim>\<open>Number(s.price)\<close>, \<open>count_r\<close> the number the field \<^verbatim>\<open>count\<close> converts to in
  \<^verbatim>\<open>s.count > 0\<close>, \<open>rate\<close> the field \<^verbatim>\<open>rate\<close>; an undefined field is \<^verbatim>\<open>NaN\<close> there.
\<close>

record raw_offering =
  provider :: string
  country :: string
  service :: string
  service_name :: "string option"
  operator :: string
  price :: number
  count_r :: number
  rate :: number

text \<open>
  What a truthy read of \<^verbatim>\<open>servicePriority[key]\<close> gives: a value with its properties
  \<^verbatim>\<open>name\<close> and \<^verbatim>\<open>priority\<close>.
\<close>

record priority_info =
  name_p :: js_value
  priority_p :: js_value

text \<open>The document written to the catalog (\<^verbatim>\<open>formattedService\<close>).\<close>

record catalog_entry =
  id_e :: string
  service_e :: string
  service_persian :: js_value
  country_e :: string
  country_persian :: js_value
  country_code :: js_value
  operator_e :: string
  price_toman :: number
  priority :: js_value
  available :: bool
  success_rate :: number
  provider_e :: string

text \<open>
  What the loop reads: the runtime, the two module-level rates (what
  \<^verbatim>\<open>updateCurrencyRates\<close> stored, as the number a multiplication converts it to:
  \<^verbatim>\<open>NaN\<close> for \<^verbatim>\<open>undefined\<close>), the priority table and the unified country map. The
  priority table (\<^verbatim>\<open>service-priority.js\<close>, not part of the sources at hand) is given by
  its reads: \<open>servicePriority ctx k\<close> is \<open>None\<close> when \<^verbatim>\<open>servicePriority[k]\<close> is falsy, and
  the value read otherwise, inherited properties included.
\<close>

record run_context =
  runtime :: js_runtime
  usdToTomanRate :: number
  rubToTomanRate :: number
  servicePriority :: "string \<Rightarrow> priority_info option"
  countryMap :: "string \<rightharpoonup> country_data"

text \<open>\<^verbatim>\<open>word.charAt(0).toUpperCase() + word.slice(1).toLowerCase()\<close>\<close>

definition capitalize :: "js_runtime \<Rightarrow> string \<Rightarrow> string" where
  "capitalize rt word = toUpperCase rt (charAt0 rt word) @ toLowerCase rt (slice1 rt word)"

definition titleCase :: "js_runtime \<Rightarrow> string \<Rightarrow> string" where
  "titleCase rt str = join_space (map (capitalize rt) (split_space str))"

text \<open>\<^verbatim>\<open>s.service_name || s.service\<close>\<close>

definition canonicalEnglishName :: "raw_offering \<Rightarrow> string" where
  "canonicalEnglishName s =
     (case service_name s of Some n \<Rightarrow> if n \<noteq> [] then n else service s | None \<Rightarrow> service s)"

text \<open>\<^verbatim>\<open>servicePriority[canonicalKeyFromName] || servicePriority[cleanServiceCode]\<close>\<close>

definition priorityInfo :: "run_context \<Rightarrow> raw_offering \<Rightarrow> priority_info option" where
  "priorityInfo ctx s =
     (let cleanServiceCode = trim (runtime ctx) (toLowerCase (runtime ctx) (service s));
          canonicalKeyFromName = generateCanonicalName (runtime ctx) (canonicalEnglishName s)
      in case servicePriority ctx canonicalKeyFromName of
           Some info \<Rightarrow> Some info
         | None \<Rightarrow> servicePriority ctx cleanServiceCode)"

text \<open>\<^verbatim>\<open>priorityInfo?.name\<close> and \<^verbatim>\<open>priorityInfo?.priority\<close>\<close>

definition priorityName :: "run_context \<Rightarrow> raw_offering \<Rightarrow> js_value" where
  "priorityName ctx s = (case priorityInfo ctx s of None \<Rightarrow> Undefined | Some info \<Rightarrow> name_p info)"

definition priorityRank :: "run_context \<Rightarrow> raw_offering \<Rightarrow> js_value" where
  "priorityRank ctx s = (case priorityInfo ctx s of None \<Rightarrow> Undefined | Some info \<Rightarrow> priority_p info)"

text \<open>The branch on \<^verbatim>\<open>s.provider\<close>, with \<^verbatim>\<open>Number(s.price) || 0\<close>.\<close>

definition basePriceToman :: "run_context \<Rightarrow> raw_offering \<Rightarrow> number" where
  "basePriceToman ctx s =
     (if provider s = ''sms-activate''
      then js_mul (number_or (price s) (Finite False 0)) (usdToTomanRate ctx)
      else js_mul (number_or (price s) (Finite False 0)) (rubToTomanRate ctx))"

definition identity :: "js_runtime \<Rightarrow> raw_offering \<Rightarrow> string" where
  "identity rt s =
     ''srv_'' @ trim rt (toLowerCase rt (service s)) @ ''_'' @ trim rt (toLowerCase rt (country s))
       @ ''_'' @ operator s @ ''_'' @ provider s"

text \<open>
  One iteration of \<^verbatim>\<open>for (const s of allServicesRaw)\<close> up to the grouping: the first
  component says whether \<^verbatim>\<open>unknownServiceCodes.add(s.service)\<close> ran, the second is the
  \<^verbatim>\<open>formattedService\<close> built, or \<open>None\<close> where the iteration ends in \<^verbatim>\<open>continue\<close>.
\<close>

definition formattedService :: "run_context \<Rightarrow> raw_offering \<Rightarrow> bool \<times> catalog_entry option" where
  "formattedService ctx s =
     (let cleanCountry = trim (runtime ctx) (toLowerCase (runtime ctx) (country s))
      in if canonicalEnglishName s = [] then (True, None)
         else
           let servicePersian = (if truthy (priorityName ctx s) then priorityName ctx s
                                 else Str (titleCase (runtime ctx) (canonicalEnglishName s)));
               unknown = (\<not> truthy (priorityName ctx s) \<and> priorityInfo ctx s = None)
           in case getCountryDataByCanonicalName (runtime ctx) (countryMap ctx) cleanCountry of
                None \<Rightarrow> (unknown, None)
              | Some countryData \<Rightarrow>
                  if js_le0 (basePriceToman ctx s) then (unknown, None)
                  else
                    let finalPriceToman = js_ceil (js_mul (basePriceToman ctx s) (double (14 / 10)))
                    in (unknown, Some
                         \<lparr>id_e = identity (runtime ctx) s,
                          service_e = service s,
                          service_persian = servicePersian,
                          country_e = country s,
                          country_persian = persian countryData,
                          country_code = code countryData,
                          operator_e = operator s,
                          price_toman = finalPriceToman,
                          priority = (if truthy (priorityRank ctx s) then priorityRank ctx s
                                      else Other True ''999''),
                          available = js_gt0 (count_r s),
                          success_rate = number_or (rate s) (Finite False 0),
                          provider_e = provider s\<rparr>))"

text \<open>
  The state of the loop: \<^verbatim>\<open>serviceMap\<close> (a \<^verbatim>\<open>Map\<close>, kept in insertion order) and
  \<^verbatim>\<open>unknownServiceCodes\<close> (a \<^verbatim>\<open>Set\<close>, of which only the size is read).
\<close>

record run_state =
  serviceMap :: "(string \<times> catalog_entry list) list"
  unknownServiceCodes :: "string set"

text \<open>\<^verbatim>\<open>if (!serviceMap.has(mapKey)) serviceMap.set(mapKey, []);
  serviceMap.get(mapKey).push(formattedService)\<close>\<close>

fun map_push :: "string \<Rightarrow> 'a \<Rightarrow> (string \<times> 'a list) list \<Rightarrow> (string \<times> 'a list) list" where
  "map_push k v [] = [(k, [v])]"
| "map_push k v ((k', vs) # m) =
     (if k' = k then (k', vs @ [v]) # m else (k', vs) # map_push k v m)"

definition mapKey :: "catalog_entry \<Rightarrow> string" where
  "mapKey e = to_text (service_persian e) @ ''_'' @ to_text (country_persian e)"

definition normalize_step :: "run_context \<Rightarrow> run_state \<Rightarrow> raw_offering \<Rightarrow> run_state" where
  "normalize_step ctx st s =
     (let (unknown, formatted) = formattedService ctx s;
          st1 = (if unknown
                 then st\<lparr>unknownServiceCodes := insert (service s) (unknownServiceCodes st)\<rparr>
                 else st)
      in case formatted of
           None \<Rightarrow> st1
         | Some e \<Rightarrow> st1\<lparr>serviceMap := map_push (mapKey e) e (serviceMap st1)\<rparr>)"

definition initial_state :: run_state where
  "initial_state = \<lparr>serviceMap = [], unknownServiceCodes = {}\<rparr>"

text \<open>\<^verbatim>\<open>Array.from(serviceMap.values()).flat()\<close>\<close>

definition flatten :: "(string \<times> 'a list) list \<Rightarrow> 'a list" where
  "flatten m = concat (map snd m)"

definition formattedServices :: "run_context \<Rightarrow> raw_offering list \<Rightarrow> catalog_entry list" where
  "formattedServices ctx allServicesRaw =
     flatten (serviceMap (foldl (normalize_step ctx) initial_state allServicesRaw))"

text \<open>The entries that enter the grouping, in input order: the records no \<^verbatim>\<open>continue\<close>
  dropped.\<close>

definition entered :: "run_context \<Rightarrow> raw_offering list \<Rightarrow> catalog_entry list" where
  "entered ctx allServicesRaw = List.map_filter (\<lambda>s. snd (formattedService ctx s)) allServicesRaw"

subsection \<open>Catalog publisher: the collection swap of \<^verbatim>\<open>runUpdate\<close>\<close>

text \<open>
  The database as far as the publisher touches it: a partial map from collection names to
  their documents; an absent name is a collection that does not exist. The Mongoose schema
  of \<^verbatim>\<open>Service\<close> is not part of the sources at hand: \<open>valid\<close> says which documents pass its
  validation (with \<^verbatim>\<open>ordered: false\<close> the others are left out of the batch).
\<close>

type_synonym store = "string \<rightharpoonup> catalog_entry list"

datatype store_error = NamespaceNotFound | NamespaceExists

definition deleteMany :: "string \<Rightarrow> store \<Rightarrow> store" where
  "deleteMany coll db = (case db coll of None \<Rightarrow> db | Some docs \<Rightarrow> db(coll \<mapsto> []))"

definition insertMany :: "(catalog_entry \<Rightarrow> bool) \<Rightarrow> string \<Rightarrow> catalog_entry list \<Rightarrow> store \<Rightarrow> store" where
  "insertMany valid coll docs db =
     db(coll \<mapsto> (case db coll of None \<Rightarrow> [] | Some old \<Rightarrow> old) @ filter valid docs)"

text \<open>\<^verbatim>\<open>dropCollection('services').catch(...)\<close>: a missing collection (code 26) is not an
  error for the caller.\<close>

definition dropCollection :: "string \<Rightarrow> store \<Rightarrow> store" where
  "dropCollection coll db = db(coll := None)"

definition renameCollection :: "string \<Rightarrow> string \<Rightarrow> store \<Rightarrow> store_error + store" where
  "renameCollection src dst db =
     (case db src of
        None \<Rightarrow> Inl NamespaceNotFound
      | Some docs \<Rightarrow> if db dst \<noteq> None then Inl NamespaceExists
                     else Inr (db(src := None, dst \<mapsto> docs)))"

text \<open>What a reader of a collection sees (\<^verbatim>\<open>Service.find()\<close>): its documents, none when
  the collection does not exist.\<close>

definition find_all :: "string \<Rightarrow> store \<Rightarrow> catalog_entry list" where
  "find_all coll db = (case db coll of None \<Rightarrow> [] | Some docs \<Rightarrow> docs)"

text \<open>
  The publish sequence as a step relation: the stage names the operation that runs next.
  A reader may run between any two steps.
\<close>

datatype stage = Clearing | Inserting | Dropping | Renaming | Published | Aborted

inductive publish_step ::
  "(catalog_entry \<Rightarrow> bool) \<Rightarrow> catalog_entry list \<Rightarrow> stage \<times> store \<Rightarrow> stage \<times> store \<Rightarrow> bool"
  for valid :: "catalog_entry \<Rightarrow> bool" and docs :: "catalog_entry list" where
  clear: "publish_step valid docs (Clearing, db) (Inserting, deleteMany ''service_temps'' db)"
| insert: "publish_step valid docs (Inserting, db) (Dropping, insertMany valid ''service_temps'' docs db)"
| drop: "publish_step valid docs (Dropping, db) (Renaming, dropCollection ''services'' db)"
| rename: "renameCollection ''service_temps'' ''services'' db = Inr db'
    \<Longrightarrow> publish_step valid docs (Renaming, db) (Published, db')"
| rename_fails: "renameCollection ''service_temps'' ''services'' db = Inl err
    \<Longrightarrow> publish_step valid docs (Renaming, db) (Aborted, db)"

subsection \<open>Notions used in the statements\<close>

text \<open>The effect of one iteration on \<^verbatim>\<open>serviceMap\<close> alone.\<close>

definition group_step :: "run_context \<Rightarrow> (string \<times> catalog_entry list) list \<Rightarrow> raw_offering
    \<Rightarrow> (string \<times> catalog_entry list) list" where
  "group_step ctx m s = (case snd (formattedService ctx s) of None \<Rightarrow> m
                         | Some e \<Rightarrow> map_push (mapKey e) e m)"

text \<open>The double that the literal \<^verbatim>\<open>1.4\<close> denotes.\<close>

definition one_point_four :: rat where
  "one_point_four = 3152519739159347 / 2251799813685248"

text \<open>The four components the identity string is built from.\<close>

definition identity_key :: "js_runtime \<Rightarrow> raw_offering \<Rightarrow> string \<times> string \<times> string \<times> string" where
  "identity_key rt s =
     (trim rt (toLowerCase rt (service s)), trim rt (toLowerCase rt (country s)), operator s,
      provider s)"

text \<open>
  What every stored entry satisfies: its code is the truthy value read from the code table
  under the entry's key; its display name is the truthy value read from the translation
  table under that key, or the value read under an enumerated key with that canonical name.
\<close>

definition from_tables :: "js_runtime \<Rightarrow> js_object \<Rightarrow> js_object \<Rightarrow> string \<Rightarrow> country_data \<Rightarrow> bool" where
  "from_tables rt countryTranslations countryCodes k e \<longleftrightarrow>
     truthy (code e) \<and> code e = read countryCodes k
     \<and> (truthy (persian e) \<and> persian e = read countryTranslations k
        \<or> (\<exists>key\<in>set (keys_of countryTranslations).
              generateCanonicalName rt key = k \<and> persian e = read countryTranslations key))"

subsection \<open>Concrete inputs\<close>

text \<open>Small tables and records on which the functions above are run. The display names
  are transliterated. The tables are plain objects.\<close>

definition demo_countries :: "(string \<times> string) list" where
  "demo_countries = [(''0'', ''Russia''), (''1'', ''Ukraine'')]"

definition demo_translations :: js_object where
  "demo_translations = plain_object [(''russia'', Str ''Rusiye''), (''ukraine'', Str ''Okrayn'')]"

definition demo_codes :: js_object where
  "demo_codes = plain_object [(''russia'', Str ''RU'')]"

text \<open>The reads of a priority table that is a plain object with the given own entries: an
  inherited function has its own \<^verbatim>\<open>name\<close> and no \<^verbatim>\<open>priority\<close>.\<close>

definition plain_priority_table :: "(string \<times> priority_info) list \<Rightarrow> string \<Rightarrow> priority_info option" where
  "plain_priority_table props k =
     (case map_of props k of
        Some info \<Rightarrow> Some info
      | None \<Rightarrow>
          if k \<in> set prototype_functions
            then Some \<lparr>name_p = Str (function_name k), priority_p = Undefined\<rparr>
          else if k = ''__proto__'' then Some \<lparr>name_p = Undefined, priority_p = Undefined\<rparr>
          else None)"

definition demo_context :: run_context where
  "demo_context =
     \<lparr>runtime = ascii_runtime,
      usdToTomanRate = Finite False 58000,
      rubToTomanRate = Finite False 150,
      servicePriority =
        plain_priority_table [(''telegram'', \<lparr>name_p = Str ''Telegeram'', priority_p = Other True ''1''\<rparr>)],
      countryMap = unifiedCountryMap ascii_runtime demo_countries demo_translations demo_codes\<rparr>"

definition fivesim_telegram :: raw_offering where
  "fivesim_telegram =
     \<lparr>provider = ''5sim'', country = ''russia'', service = ''telegram'', service_name = None,
      operator = ''any'', price = Finite False 10, count_r = Finite False 100,
      rate = Finite False 98\<rparr>"

definition smsactivate_telegram :: raw_offering where
  "smsactivate_telegram =
     \<lparr>provider = ''sms-activate'', country = ''Russia'', service = ''tg'',
      service_name = Some ''Telegram'', operator = ''any'', price = Finite False (1 / 2),
      count_r = Finite False 0, rate = Finite False 0\<rparr>"

definition fivesim_cheap :: raw_offering where
  "fivesim_cheap =
     \<lparr>provider = ''5sim'', country = ''russia'', service = ''telegram'', service_name = None,
      operator = ''virtual21'', price = Finite False 1, count_r = Finite False 7, rate = NaN\<rparr>"

text \<open>A 5sim record of cost 4.15.\<close>

definition fivesim_fraction :: raw_offering where
  "fivesim_fraction = fivesim_cheap\<lparr>price := double (415 / 100)\<rparr>"

definition fivesim_atlantis :: raw_offering where
  "fivesim_atlantis =
     \<lparr>provider = ''5sim'', country = ''atlantis'', service = ''telegram'', service_name = None,
      operator = ''any'', price = Finite False 10, count_r = Finite False 100,
      rate = Finite False 98\<rparr>"

definition fivesim_vk_a :: raw_offering where
  "fivesim_vk_a =
     \<lparr>provider = ''5sim'', country = ''russia'', service = ''vk'', service_name = None,
      operator = ''russia_any'', price = Finite False 10, count_r = Finite False 3, rate = NaN\<rparr>"

definition fivesim_vk_b :: raw_offering where
  "fivesim_vk_b =
     \<lparr>provider = ''5sim'', country = ''russia'', service = ''vk_russia'', service_name = None,
      operator = ''any'', price = Finite False 10, count_r = Finite False 3, rate = NaN\<rparr>"

text \<open>A 5sim record whose service token is the name of an inherited property.\<close>

definition fivesim_constructor :: raw_offering where
  "fivesim_constructor = fivesim_telegram\<lparr>service := ''constructor''\<rparr>"

text \<open>A translation table whose key is the display name itself, not its canonical form.\<close>

definition ivory_countries :: "(string \<times> string) list" where
  "ivory_countries = [(''27'', ''Ivory Coast'')]"

definition ivory_translations :: js_object where
  "ivory_translations = plain_object [(''Ivory Coast'', Str ''Sahel-e Aj'')]"

definition ivory_codes :: js_object where
  "ivory_codes = plain_object [(''ivorycoast'', Str ''CI'')]"

text \<open>A live catalog of one document (the one the repository's update test starts from) and
  the batch of a later run.\<close>

definition old_entry :: catalog_entry where
  "old_entry =
     \<lparr>id_e = ''srv_telegram_russia_any_5sim'', service_e = ''telegram'',
      service_persian = Str ''Telegeram'', country_e = ''russia'',
      country_persian = Str ''Rusiye'', country_code = Str ''RU'', operator_e = ''any'',
      price_toman = Finite False 1000, priority = Other True ''1'', available = True,
      success_rate = Finite False 95, provider_e = ''5sim''\<rparr>"

definition new_entry :: catalog_entry where
  "new_entry = old_entry\<lparr>price_toman := Finite False 2100, success_rate := Finite False 98\<rparr>"

definition live_store :: store where
  "live_store = [''services'' \<mapsto> [old_entry]]"

text \<open>Further records and the entries they are formatted to.\<close>

definition sms_entry :: catalog_entry where
  "sms_entry =
     \<lparr>id_e = ''srv_tg_russia_any_sms-activate'', service_e = ''tg'',
      service_persian = Str ''Telegeram'', country_e = ''Russia'',
      country_persian = Str ''Rusiye'', country_code = Str ''RU'', operator_e = ''any'',
      price_toman = Finite False 40600, priority = Other True ''1'', available = False,
      success_rate = Finite False 0, provider_e = ''sms-activate''\<rparr>"

definition fivesim_free :: raw_offering where
  "fivesim_free = fivesim_telegram\<lparr>operator := ''beeline'', price := Finite False 0\<rparr>"

definition demo_raws :: "raw_offering list" where
  "demo_raws = [fivesim_telegram, smsactivate_telegram, fivesim_atlantis, fivesim_free]"

section \<open>Properties\<close>

subsection \<open>Retry executor\<close>

lemma backoffs_0: "backoffs random delay jitter k 0 = []"
  by (simp add: backoffs_def)

lemma backoffs_Suc:
  "backoffs random delay jitter k (Suc n) =
     Invoked # Slept (delay * 2 ^ k + random k * jitter) # backoffs random delay jitter (Suc k) n"
  by (simp add: backoffs_def upt_conv_Cons del: upt_Suc)

lemma invocations_backoffs: "invocations (backoffs random delay jitter k n @ evs) = n + invocations evs"
  by (induction n arbitrary: k) (simp_all add: backoffs_0 backoffs_Suc invocations_def)

lemma retry_loop_skip:
  assumes "\<forall>j. k \<le> j \<and> j < k + n \<longrightarrow> (\<exists>e. fn j = Rejected e \<and> retryable e)"
    and "k + n \<le> retries"
  shows "retry_loop fn random retries delay jitter k le =
     (fst (retry_loop fn random retries delay jitter (k + n) (if n = 0 then le else rejection (fn (k + n - 1)))),
      backoffs random delay jitter k n
        @ snd (retry_loop fn random retries delay jitter (k + n) (if n = 0 then le else rejection (fn (k + n - 1)))))"
  using assms
proof (induction n arbitrary: k le)
  case 0
  then show ?case by (simp add: backoffs_0)
next
  case (Suc n)
  have "k \<le> k \<and> k < k + Suc n" by simp
  with Suc.prems(1) have "\<exists>e. fn k = Rejected e \<and> retryable e" by blast
  then obtain e where e: "fn k = Rejected e" "retryable e" by blast
  have lt: "k < retries" using Suc.prems by simp
  have step: "retry_loop fn random retries delay jitter k le =
      (fst (retry_loop fn random retries delay jitter (Suc k) (Some e)),
       Invoked # Slept (delay * 2 ^ k + random k * jitter)
         # snd (retry_loop fn random retries delay jitter (Suc k) (Some e)))"
    by (subst retry_loop.simps) (simp add: e lt split_beta Let_def)
  have IH: "retry_loop fn random retries delay jitter (Suc k) (Some e) =
     (fst (retry_loop fn random retries delay jitter (Suc k + n) (if n = 0 then Some e else rejection (fn (Suc k + n - 1)))),
      backoffs random delay jitter (Suc k) n
        @ snd (retry_loop fn random retries delay jitter (Suc k + n) (if n = 0 then Some e else rejection (fn (Suc k + n - 1)))))"
    using Suc.prems by (intro Suc.IH) auto
  have le': "(if n = 0 then Some e else rejection (fn (Suc k + n - 1))) = rejection (fn (k + Suc n - 1))"
    using e by (cases n) auto
  show ?case
    unfolding step by (subst IH, subst IH) (simp add: le' backoffs_Suc)
qed

lemma retry_loop_exhausted:
  "retry_loop fn random retries delay jitter retries le = (Inl le, [])"
  by (subst retry_loop.simps) simp


lemma retryable_500: "status e = Some 500 \<Longrightarrow> retryable e"
  by (simp add: retryable_def)

lemma withRetry_all_retryable:
  assumes "\<forall>i<retries. \<exists>e. fn i = Rejected e \<and> retryable e"
  shows "withRetry fn random retries delay jitter =
           (Inl (if retries = 0 then None else rejection (fn (retries - 1))),
            backoffs random delay jitter 0 retries)"
proof -
  have "\<forall>j. 0 \<le> j \<and> j < 0 + retries \<longrightarrow> (\<exists>e. fn j = Rejected e \<and> retryable e)"
    using assms by simp
  from retry_loop_skip [OF this, of retries random delay jitter None]
  show ?thesis by (simp add: withRetry_def retry_loop_exhausted)
qed

lemma withRetry_reach:
  assumes "\<forall>j<i. \<exists>e. fn j = Rejected e \<and> retryable e" and "i \<le> retries"
  shows "withRetry fn random retries delay jitter =
     (fst (retry_loop fn random retries delay jitter i (if i = 0 then None else rejection (fn (i - 1)))),
      backoffs random delay jitter 0 i
        @ snd (retry_loop fn random retries delay jitter i (if i = 0 then None else rejection (fn (i - 1)))))"
proof -
  have "\<forall>j. 0 \<le> j \<and> j < 0 + i \<longrightarrow> (\<exists>e. fn j = Rejected e \<and> retryable e)"
    using assms(1) by simp
  moreover have "0 + i \<le> retries" using assms(2) by simp
  ultimately have "retry_loop fn random retries delay jitter 0 None =
     (fst (retry_loop fn random retries delay jitter (0 + i) (if i = 0 then None else rejection (fn (0 + i - 1)))),
      backoffs random delay jitter 0 i
        @ snd (retry_loop fn random retries delay jitter (0 + i) (if i = 0 then None else rejection (fn (0 + i - 1)))))"
    by (rule retry_loop_skip)
  then show ?thesis unfolding withRetry_def by (simp only: add_0)
qed

text \<open>
  Claim C3 (retry bound). With \<open>retries = 3\<close>, an operation that is rejected with status 500
  by its first two calls and resolves on the third makes \<^verbatim>\<open>withRetry\<close> return that value
  after exactly three calls. An operation rejected with status 500 by every call is called
  exactly \<open>retries\<close> times, and then the error of the last call is thrown.
\<close>

theorem withRetry_retry_bound:
  "(status e0 = Some 500 \<and> status e1 = Some 500 \<and> fn (0::nat) = Rejected e0 \<and> fn 1 = Rejected e1
      \<and> fn 2 = Resolved v
     \<longrightarrow> fst (withRetry fn random 3 delay jitter) = Inr v
         \<and> invocations (snd (withRetry fn random 3 delay jitter)) = 3)
   \<and> ((\<forall>i<retries. \<exists>e. fn i = Rejected e \<and> status e = Some 500)
     \<longrightarrow> invocations (snd (withRetry fn random retries delay jitter)) = retries
         \<and> (0 < retries \<longrightarrow>
              fst (withRetry fn random retries delay jitter) = Inl (rejection (fn (retries - 1)))))"
proof (intro conjI impI)
  assume a: "status e0 = Some 500 \<and> status e1 = Some 500 \<and> fn (0::nat) = Rejected e0 \<and> fn 1 = Rejected e1
      \<and> fn 2 = Resolved v"
  have pre: "\<forall>j<2. \<exists>e. fn j = Rejected e \<and> retryable e"
  proof (intro allI impI)
    fix j :: nat assume "j < 2"
    then have "j = 0 \<or> j = 1" by arith
    then show "\<exists>e. fn j = Rejected e \<and> retryable e"
      using a by (auto simp: retryable_500)
  qed
  have last: "retry_loop fn random 3 delay jitter 2 le = (Inr v, [Invoked])" for le
    by (subst retry_loop.simps) (simp add: a)
  have eq: "withRetry fn random 3 delay jitter = (Inr v, backoffs random delay jitter 0 2 @ [Invoked])"
    using withRetry_reach [OF pre, of 3 random delay jitter] by (simp add: last)
  show "fst (withRetry fn random 3 delay jitter) = Inr v"
    by (simp add: eq)
  show "invocations (snd (withRetry fn random 3 delay jitter)) = 3"
    by (simp add: eq invocations_backoffs) (simp add: invocations_def)
next
  assume a: "\<forall>i<retries. \<exists>e. fn i = Rejected e \<and> status e = Some 500"
  then have "\<forall>i<retries. \<exists>e. fn i = Rejected e \<and> retryable e"
    by (blast intro: retryable_500)
  note eq = withRetry_all_retryable [OF this, of random delay jitter]
  show "invocations (snd (withRetry fn random retries delay jitter)) = retries"
    using invocations_backoffs [of random delay jitter 0 retries "[]"]
    by (simp add: eq invocations_def)
  show "fst (withRetry fn random retries delay jitter) = Inl (rejection (fn (retries - 1)))"
    if "0 < retries" using that by (simp add: eq)
qed



text \<open>Both cases at \<open>retries = 3\<close>, \<open>delay = 1000\<close>, \<open>jitter = 200\<close>.\<close>

theorem withRetry_retry_bound_witness:
  "fst (withRetry (\<lambda>i. if i < 2 then Rejected error500 else Resolved ''prices'') (\<lambda>i. 0) 3 1000 200)
      = Inr ''prices''
   \<and> invocations (snd (withRetry (\<lambda>i. if i < 2 then Rejected error500 else Resolved ''prices'')
        (\<lambda>i. 0) 3 1000 200)) = 3
   \<and> fst (withRetry (\<lambda>i. Rejected error500 :: string attempt) (\<lambda>i. 0) 3 1000 200) = Inl (Some error500)
   \<and> invocations (snd (withRetry (\<lambda>i. Rejected error500 :: string attempt) (\<lambda>i. 0) 3 1000 200)) = 3"
  using withRetry_retry_bound [of error500 error500
          "\<lambda>i. if i < 2 then Rejected error500 else Resolved ''prices''" "''prices''" "\<lambda>i. 0" 1000 200 0]
        withRetry_retry_bound [of error500 error500 "\<lambda>i. Rejected error500 :: string attempt"
          "''x''" "\<lambda>i. 0" 1000 200 3]
  by (simp add: error500_def)

lemma retry_loop_starts_Invoked:
  "i < retries \<Longrightarrow> \<exists>evs. snd (retry_loop fn random retries delay jitter i le) = Invoked # evs"
  by (subst retry_loop.simps) (simp add: split_beta Let_def split: attempt.split)

text \<open>
  Claim C8 (retry classification), as amended. Let call \<open>i\<close> be reached (all earlier calls
  were rejected with a retryable error) and rejected with \<open>error\<close>. The error is retryable iff
  it carries status 429 or a status of at least 500. If it is not, \<open>error\<close> is thrown at once:
  the trace ends with this call, without a sleep and without a further call. If it is, the
  executor sleeps \<open>delay * 2^i + random i * jitter\<close>; the operation is called again after the
  sleep iff \<open>i + 1 < retries\<close>, and otherwise \<open>error\<close> is thrown after the sleep.
\<close>

theorem withRetry_classification:
  assumes "i < retries"
    and "\<forall>j<i. \<exists>e. fn j = Rejected e \<and> retryable e"
    and "fn i = Rejected error"
  shows "(retryable error \<longleftrightarrow> (\<exists>st. status error = Some st \<and> (st = 429 \<or> 500 \<le> st)))
    \<and> (\<not> retryable error \<longrightarrow>
          withRetry fn random retries delay jitter
            = (Inl (Some error), backoffs random delay jitter 0 i @ [Invoked]))
    \<and> (retryable error \<longrightarrow>
          (\<exists>r evs. withRetry fn random retries delay jitter
               = (r, backoffs random delay jitter 0 i
                       @ Invoked # Slept (delay * 2 ^ i + random i * jitter) # evs)
             \<and> (if Suc i < retries then \<exists>evs'. evs = Invoked # evs'
                 else evs = [] \<and> r = Inl (Some error))))"
proof (intro conjI impI)
  show "retryable error \<longleftrightarrow> (\<exists>st. status error = Some st \<and> (st = 429 \<or> 500 \<le> st))"
    by (cases "status error") (simp_all add: retryable_def)
  have "i \<le> retries" using assms(1) by simp
  note reach = withRetry_reach [OF assms(2) this, of random delay jitter]
  {
    assume nr: "\<not> retryable error"
    have "retry_loop fn random retries delay jitter i le = (Inl (Some error), [Invoked])" for le
      by (subst retry_loop.simps) (simp add: assms nr)
    then show "withRetry fn random retries delay jitter
            = (Inl (Some error), backoffs random delay jitter 0 i @ [Invoked])"
      unfolding reach by simp
  }
  {
    assume r: "retryable error"
    define nxt where "nxt = retry_loop fn random retries delay jitter (Suc i) (Some error)"
    have step: "retry_loop fn random retries delay jitter i le =
        (fst nxt, Invoked # Slept (delay * 2 ^ i + random i * jitter) # snd nxt)" for le
      unfolding nxt_def by (subst retry_loop.simps) (simp add: assms r split_beta Let_def)
    have eq: "withRetry fn random retries delay jitter
               = (fst nxt, backoffs random delay jitter 0 i
                       @ Invoked # Slept (delay * 2 ^ i + random i * jitter) # snd nxt)"
      unfolding reach by (simp add: step)
    have tail: "if Suc i < retries then \<exists>evs'. snd nxt = Invoked # evs'
                 else snd nxt = [] \<and> fst nxt = Inl (Some error)"
    proof (cases "Suc i < retries")
      case True
      then show ?thesis unfolding nxt_def using retry_loop_starts_Invoked by simp
    next
      case False
      then have "Suc i = retries" using assms(1) by simp
      then show ?thesis unfolding nxt_def using retry_loop_exhausted [of fn random retries delay jitter]
        by simp
    qed
    show "\<exists>r evs. withRetry fn random retries delay jitter
               = (r, backoffs random delay jitter 0 i
                       @ Invoked # Slept (delay * 2 ^ i + random i * jitter) # evs)
             \<and> (if Suc i < retries then \<exists>evs'. evs = Invoked # evs'
                 else evs = [] \<and> r = Inl (Some error))"
      using eq tail by blast
  }
qed

text \<open>A 500 on the first call, then a 404: one sleep of \<open>1000 + 200 / 2\<close>, two calls.\<close>

theorem withRetry_classification_witness:
  "withRetry (\<lambda>i. if i = 0 then Rejected error500 else (Rejected error404 :: string attempt))
      (\<lambda>i. 1 / 2) 3 1000 200
     = (Inl (Some error404), [Invoked, Slept 1100, Invoked])"
  using withRetry_classification [of 1 3
      "\<lambda>i. if i = 0 then Rejected error500 else (Rejected error404 :: string attempt)" error404
      "\<lambda>i. 1 / 2" 1000 200]
  by (simp add: error500_def error404_def retryable_def backoffs_def)

text \<open>
  The claim as first stated (a retry after every rejected call with a retryable status) fails
  at the last permitted call: with \<open>retries = 3\<close> and a 500 on every call, the third call is
  rejected with a retryable status and the operation is not called a fourth time.
\<close>

theorem withRetry_last_attempt_counterexample:
  "(\<lambda>i::nat. Rejected error500 :: string attempt) 2 = Rejected error500
   \<and> retryable error500
   \<and> withRetry (\<lambda>i. Rejected error500 :: string attempt) (\<lambda>i. 0) 3 1000 200
       = (Inl (Some error500), [Invoked, Slept 1000, Invoked, Slept 2000, Invoked, Slept 4000])"
proof -
  have r: "retryable error500" by (simp add: retryable_def error500_def)
  then have "\<forall>i<3. \<exists>e. (\<lambda>i::nat. Rejected error500 :: string attempt) i = Rejected e \<and> retryable e"
    by simp
  from withRetry_all_retryable [OF this, of "\<lambda>i. 0" 1000 200] r
  show ?thesis by (simp add: backoffs_def upt_rec)
qed

subsection \<open>Normalizer and merger\<close>

lemma mset_flatten_map_push: "mset (flatten (map_push k v m)) = mset (flatten m) + {#v#}"
  by (induction m) (auto simp: flatten_def)

lemma serviceMap_normalize_step:
  "serviceMap (normalize_step ctx st s) = group_step ctx (serviceMap st) s"
  by (cases "formattedService ctx s")
     (simp add: normalize_step_def group_step_def split: option.split)

lemma serviceMap_foldl:
  "serviceMap (foldl (normalize_step ctx) st raws) = foldl (group_step ctx) (serviceMap st) raws"
  by (induction raws arbitrary: st) (simp_all add: serviceMap_normalize_step)

lemma group_step_None: "snd (formattedService ctx s) = None \<Longrightarrow> group_step ctx m s = m"
  by (simp add: group_step_def)

lemma group_step_Some:
  "snd (formattedService ctx s) = Some e \<Longrightarrow> group_step ctx m s = map_push (mapKey e) e m"
  by (simp add: group_step_def)

lemma entered_Nil: "entered ctx [] = []"
  by (simp add: entered_def map_filter_simps)

lemma entered_Cons:
  "entered ctx (s # raws) = (case snd (formattedService ctx s) of None \<Rightarrow> entered ctx raws
                              | Some e \<Rightarrow> e # entered ctx raws)"
  by (simp add: entered_def map_filter_simps split: option.split)

lemma mset_foldl_group_step:
  "mset (flatten (foldl (group_step ctx) m raws)) = mset (flatten m) + mset (entered ctx raws)"
proof (induction raws arbitrary: m)
  case Nil
  show ?case by (simp add: entered_Nil)
next
  case (Cons s raws)
  show ?case
  proof (cases "snd (formattedService ctx s)")
    case None
    then show ?thesis by (simp add: Cons.IH group_step_None entered_Cons)
  next
    case (Some e)
    then show ?thesis
      by (simp add: Cons.IH group_step_Some entered_Cons mset_flatten_map_push)
  qed
qed

lemma flatten_Nil: "flatten [] = []"
  by (simp add: flatten_def)

lemma mset_formattedServices: "mset (formattedServices ctx raws) = mset (entered ctx raws)"
  by (simp add: formattedServices_def serviceMap_foldl mset_foldl_group_step initial_state_def
      flatten_Nil)

lemma set_entered:
  "set (entered ctx raws) = {e. \<exists>s\<in>set raws. snd (formattedService ctx s) = Some e}"
  by (induction raws) (auto simp: entered_Nil entered_Cons split: option.splits)

lemma set_formattedServices:
  "set (formattedServices ctx raws) = {e. \<exists>s\<in>set raws. snd (formattedService ctx s) = Some e}"
  using mset_formattedServices [of ctx raws] set_entered [of ctx raws]
  by (metis set_mset_mset)

lemma formattedService_SomeD:
  assumes "snd (formattedService ctx s) = Some e"
  shows "\<not> js_le0 (basePriceToman ctx s)"
    and "price_toman e = js_ceil (js_mul (basePriceToman ctx s) (double (14 / 10)))"
    and "available e = js_gt0 (count_r s)"
    and "id_e e = identity (runtime ctx) s"
    and "provider_e e = provider s"
    and "countryMap ctx (generateCanonicalName (runtime ctx)
           (trim (runtime ctx) (toLowerCase (runtime ctx) (country s)))) \<noteq> None"
  using assms
  by (auto simp: formattedService_def Let_def getCountryDataByCanonicalName_def
      split: if_splits option.splits)

lemma formattedService_fivesim_telegram:
  "formattedService demo_context fivesim_telegram = (False, Some new_entry)"
  by code_simp

lemma formattedService_smsactivate_telegram:
  "formattedService demo_context smsactivate_telegram = (False, Some sms_entry)"
  by code_simp

text \<open>
  Claim C5 (the merger keeps every entry, whatever the provider). The flattened groups hold
  exactly the entries that entered the grouping, each as often as it entered: the output is
  a permutation of them, so the counts agree. When a 5sim record and an sms-activate record
  both pass the drop filters and carry the same localized service and country names (the
  same group), both entries are in the output, and they are two entries.
\<close>

theorem merger_preserves_entries:
  "mset (formattedServices ctx raws) = mset (entered ctx raws)
   \<and> length (formattedServices ctx raws) = length (entered ctx raws)
   \<and> (\<forall>a\<in>set raws. \<forall>b\<in>set raws. \<forall>ea eb.
         provider a = ''5sim'' \<and> provider b = ''sms-activate''
         \<and> snd (formattedService ctx a) = Some ea \<and> snd (formattedService ctx b) = Some eb
         \<and> service_persian ea = service_persian eb \<and> country_persian ea = country_persian eb
         \<longrightarrow> ea \<in> set (formattedServices ctx raws) \<and> eb \<in> set (formattedServices ctx raws)
             \<and> ea \<noteq> eb)"
proof (intro conjI ballI allI impI)
  show m: "mset (formattedServices ctx raws) = mset (entered ctx raws)"
    by (rule mset_formattedServices)
  show "length (formattedServices ctx raws) = length (entered ctx raws)"
    using m by (rule mset_eq_length)
next
  fix a b ea eb
  assume a: "a \<in> set raws" and b: "b \<in> set raws"
    and h: "provider a = ''5sim'' \<and> provider b = ''sms-activate''
         \<and> snd (formattedService ctx a) = Some ea \<and> snd (formattedService ctx b) = Some eb
         \<and> service_persian ea = service_persian eb \<and> country_persian ea = country_persian eb"
  show "ea \<in> set (formattedServices ctx raws)"
    using a h by (auto simp: set_formattedServices)
  show "eb \<in> set (formattedServices ctx raws)"
    using b h by (auto simp: set_formattedServices)
  have "provider_e ea = ''5sim''" "provider_e eb = ''sms-activate''"
    using h formattedService_SomeD(5) [of ctx a ea] formattedService_SomeD(5) [of ctx b eb]
    by simp_all
  then show "ea \<noteq> eb" by auto
qed

text \<open>Telegram in Russia, offered by both providers, next to two records that are dropped.\<close>

theorem merger_preserves_entries_witness:
  "length (formattedServices demo_context demo_raws) = 2
   \<and> new_entry \<in> set (formattedServices demo_context demo_raws)
   \<and> sms_entry \<in> set (formattedServices demo_context demo_raws)
   \<and> provider_e new_entry = ''5sim'' \<and> provider_e sms_entry = ''sms-activate''"
proof -
  have 1: "fivesim_telegram \<in> set demo_raws" "smsactivate_telegram \<in> set demo_raws"
    by (simp_all add: demo_raws_def)
  have 2: "provider fivesim_telegram = ''5sim''" "provider smsactivate_telegram = ''sms-activate''"
    by (simp_all add: fivesim_telegram_def smsactivate_telegram_def)
  have 3: "service_persian new_entry = service_persian sms_entry"
    "country_persian new_entry = country_persian sms_entry"
    by (simp_all add: new_entry_def old_entry_def sms_entry_def)
  have 4: "entered demo_context demo_raws = [new_entry, sms_entry]"
    by code_simp
  have 5: "provider_e new_entry = ''5sim''" "provider_e sms_entry = ''sms-activate''"
    by (simp_all add: new_entry_def old_entry_def sms_entry_def)
  from merger_preserves_entries [of demo_context demo_raws] 1 2 3 4 5
    formattedService_fivesim_telegram formattedService_smsactivate_telegram
  show ?thesis by (simp only: snd_conv list.size) simp
qed

lemma priorityInfo_rates [simp]:
  "priorityInfo (ctx\<lparr>usdToTomanRate := u\<rparr>) s = priorityInfo ctx s"
  "priorityInfo (ctx\<lparr>rubToTomanRate := r\<rparr>) s = priorityInfo ctx s"
  by (simp_all add: priorityInfo_def split: option.split)

lemma priorityName_rates [simp]:
  "priorityName (ctx\<lparr>usdToTomanRate := u\<rparr>) s = priorityName ctx s"
  "priorityName (ctx\<lparr>rubToTomanRate := r\<rparr>) s = priorityName ctx s"
  by (simp_all add: priorityName_def)

lemma priorityRank_rates [simp]:
  "priorityRank (ctx\<lparr>usdToTomanRate := u\<rparr>) s = priorityRank ctx s"
  "priorityRank (ctx\<lparr>rubToTomanRate := r\<rparr>) s = priorityRank ctx s"
  by (simp_all add: priorityRank_def)

lemma basePriceToman_other_rate:
  "provider s = ''sms-activate'' \<Longrightarrow> basePriceToman (ctx\<lparr>rubToTomanRate := r\<rparr>) s = basePriceToman ctx s"
  "provider s \<noteq> ''sms-activate'' \<Longrightarrow> basePriceToman (ctx\<lparr>usdToTomanRate := u\<rparr>) s = basePriceToman ctx s"
  by (simp_all add: basePriceToman_def)

text \<open>
  Claim C7 (one rate per provider). The base price of an sms-activate record is its cost
  times the USD rate, and nothing the loop computes for it changes when the RUB rate is
  replaced; the base price of any other record (5sim) is its cost times the RUB rate, and
  nothing changes for it when the USD rate is replaced.
\<close>

theorem rate_by_provider:
  "(provider s = ''sms-activate'' \<longrightarrow>
      basePriceToman ctx s = js_mul (number_or (price s) (Finite False 0)) (usdToTomanRate ctx)
      \<and> formattedService (ctx\<lparr>rubToTomanRate := r\<rparr>) s = formattedService ctx s)
   \<and> (provider s \<noteq> ''sms-activate'' \<longrightarrow>
      basePriceToman ctx s = js_mul (number_or (price s) (Finite False 0)) (rubToTomanRate ctx)
      \<and> formattedService (ctx\<lparr>usdToTomanRate := u\<rparr>) s = formattedService ctx s)"
proof (intro conjI impI)
  assume p: "provider s = ''sms-activate''"
  show "basePriceToman ctx s = js_mul (number_or (price s) (Finite False 0)) (usdToTomanRate ctx)"
    using p by (simp add: basePriceToman_def)
  show "formattedService (ctx\<lparr>rubToTomanRate := r\<rparr>) s = formattedService ctx s"
    by (simp add: formattedService_def basePriceToman_other_rate(1) [OF p] Let_def
        cong: option.case_cong if_cong)
next
  assume p: "provider s \<noteq> ''sms-activate''"
  show "basePriceToman ctx s = js_mul (number_or (price s) (Finite False 0)) (rubToTomanRate ctx)"
    using p by (simp add: basePriceToman_def)
  show "formattedService (ctx\<lparr>usdToTomanRate := u\<rparr>) s = formattedService ctx s"
    by (simp add: formattedService_def basePriceToman_other_rate(2) [OF p] Let_def
        cong: option.case_cong if_cong)
qed

text \<open>The 5sim record keeps its price of 2100 under another USD rate, the sms-activate
  record its price of 40600 under another RUB rate.\<close>

theorem rate_by_provider_witness:
  "formattedService (demo_context\<lparr>usdToTomanRate := Finite False 1\<rparr>) fivesim_telegram
      = (False, Some new_entry)
   \<and> basePriceToman demo_context fivesim_telegram = Finite False 1500
   \<and> formattedService (demo_context\<lparr>rubToTomanRate := Finite False 1\<rparr>) smsactivate_telegram
      = (False, Some sms_entry)
   \<and> basePriceToman demo_context smsactivate_telegram = Finite False 29000"
proof -
  have 1: "provider fivesim_telegram \<noteq> ''sms-activate''"
    by (simp add: fivesim_telegram_def)
  have 2: "provider smsactivate_telegram = ''sms-activate''"
    by (simp add: smsactivate_telegram_def)
  have 3: "price fivesim_telegram = Finite False 10" "price smsactivate_telegram = Finite False (1 / 2)"
    by (simp_all add: fivesim_telegram_def smsactivate_telegram_def)
  have 4: "usdToTomanRate demo_context = Finite False 58000"
    "rubToTomanRate demo_context = Finite False 150"
    by (simp_all add: demo_context_def)
  have 5: "js_mul (number_or (Finite False 10) (Finite False 0)) (Finite False 150)
      = Finite False 1500"
    "js_mul (number_or (Finite False (1 / 2)) (Finite False 0)) (Finite False 58000)
      = Finite False 29000"
    by code_simp+
  from rate_by_provider [of fivesim_telegram demo_context "Finite False 1" "Finite False 1"]
    rate_by_provider [of smsactivate_telegram demo_context "Finite False 1" "Finite False 1"] 1 2 3 4
    formattedService_fivesim_telegram formattedService_smsactivate_telegram
  show ?thesis by (simp add: 5)
qed

subsection \<open>A rate that is not a number\<close>


subsection \<open>Rounding\<close>

lemma pow2_nonneg_eq: "0 \<le> k \<Longrightarrow> pow2_nonneg k = 2 ^ nat k"
proof (induction k rule: pow2_nonneg.induct)
  case (1 k)
  show ?case
  proof (cases "k \<le> 0")
    case True
    with "1.prems" have "k = 0" by simp
    then show ?thesis by (subst pow2_nonneg.simps) simp
  next
    case False
    then have IH: "pow2_nonneg (k div 2) = 2 ^ nat (k div 2)"
      using "1.IH" by simp
    have split: "nat k = nat (k div 2) + nat (k div 2) + (if even k then 0 else 1)"
      using False by (auto elim!: evenE oddE simp: nat_add_distrib nat_mult_distrib)
    show ?thesis
      using False by (subst pow2_nonneg.simps) (simp add: IH Let_def split power_add)
  qed
qed

lemma bit_length_nonneg: "0 \<le> bit_length m"
proof (induction m rule: bit_length.induct)
  case (1 n)
  then show ?case by (subst bit_length.simps) simp
qed

lemma bit_length_le: "m < 2 ^ j \<Longrightarrow> bit_length m \<le> int j"
proof (induction j arbitrary: m)
  case 0
  then show ?case by (subst bit_length.simps) simp
next
  case (Suc j)
  show ?case
  proof (cases "m \<le> 0")
    case True
    then show ?thesis by (subst bit_length.simps) simp
  next
    case False
    have "m div 2 < 2 ^ j" using Suc.prems by simp
    then have "bit_length (m div 2) \<le> int j" by (rule Suc.IH)
    then show ?thesis using False by (subst bit_length.simps) simp
  qed
qed

lemma round_half_even_lower: "z - 1 / 2 \<le> of_int (round_half_even z)"
proof -
  have "z < of_int \<lfloor>z\<rfloor> + 1" by linarith
  then show ?thesis
    unfolding round_half_even_def Let_def by (auto simp: not_less) 
qed

lemma round_half_even_upper: "z \<le> of_int w \<Longrightarrow> round_half_even z \<le> w"
proof -
  assume zw: "z \<le> of_int w"
  show ?thesis
  proof (cases "z = of_int \<lfloor>z\<rfloor>")
    case True
    then have "round_half_even z = \<lfloor>z\<rfloor>"
      unfolding round_half_even_def Let_def by simp
    moreover have "\<lfloor>z\<rfloor> \<le> w" using zw by (simp add: floor_le_iff)
    ultimately show ?thesis by simp
  next
    case False
    then have "of_int \<lfloor>z\<rfloor> < z"
      by (auto simp: less_le)
    then have "of_int \<lfloor>z\<rfloor> < (of_int w :: rat)" using zw by simp
    then have "\<lfloor>z\<rfloor> < w" by (simp only: of_int_less_iff)
    moreover have "round_half_even z \<le> \<lfloor>z\<rfloor> + 1"
      unfolding round_half_even_def Let_def by simp
    ultimately show ?thesis by simp
  qed
qed

lemma round_half_even_of_int: "round_half_even (of_int w) = w"
  unfolding round_half_even_def Let_def by simp


lemma to_double_small:
  assumes "1 \<le> a" and "a < 2 ^ 50"
  shows "\<exists>j N. 3 \<le> j \<and> to_double False a = Finite False (of_int N / 2 ^ j)
           \<and> N = round_half_even (a * 2 ^ j)"
proof -
  define e where "e = exponent a"
  have fl: "\<lfloor>a\<rfloor> < 2 ^ 50" using assms(2) by (simp add: floor_less_iff)
  have e: "e = bit_length \<lfloor>a\<rfloor> - 1" using assms(1) by (simp add: e_def exponent_def)
  have lo: "- 1 \<le> e" using bit_length_nonneg [of "\<lfloor>a\<rfloor>"] e by simp
  have hi: "e \<le> 49" using bit_length_le [OF fl] e by simp
  define j where "j = nat (52 - e)"
  have j: "3 \<le> j" "int j = 52 - e" using hi by (simp_all add: j_def)
  have q: "pow2 (e - 52) = 1 / 2 ^ j"
    using hi j by (simp add: pow2_def pow2_nonneg_eq j_def)
  have m: "max e (- 1022) = e" using lo by simp
  have a0: "a \<noteq> 0" using assms(1) by auto
  have "to_double False a = Finite False (of_int (round_half_even (a * 2 ^ j)) / 2 ^ j)"
    using hi a0 by (simp add: to_double_def Let_def m q flip: e_def)
  then show ?thesis using j(1) by blast
qed

lemma to_double_integer:
  assumes "0 < m" and "m < 2 ^ 50"
  shows "to_double False (of_int m) = Finite False (of_int m)"
proof -
  have "1 \<le> (of_int m :: rat)" using assms(1) by simp
  moreover have "(of_int m :: rat) < 2 ^ 50"
    using assms(2) by (metis of_int_less_iff of_int_numeral of_int_power)
  ultimately obtain j N where jN: "3 \<le> j"
      "to_double False (of_int m) = Finite False (of_int N / 2 ^ j)"
      "N = round_half_even (of_int m * 2 ^ j)"
    using to_double_small by blast
  have "(of_int m :: rat) * 2 ^ j = of_int (m * 2 ^ j)" by simp
  then have "N = m * 2 ^ j" using jN(3) by (simp only: round_half_even_of_int)
  then show ?thesis using jN(2) by simp
qed

lemma ceil_times_one_point_four:
  assumes "0 < n" and "n < 2 ^ 49"
  shows "js_ceil (to_double False (of_int n * one_point_four))
           = Finite False (of_int \<lceil>of_int n * (14 / 10 :: rat)\<rceil>)"
proof -
  define p :: rat where "p = of_int n * one_point_four"
  define K where "K = \<lceil>of_int n * (14 / 10 :: rat)\<rceil>"
  have n1: "(1 :: rat) \<le> of_int n" using assms(1) by simp
  have n2: "(of_int n :: rat) < 2 ^ 49"
    using assms(2) by (metis of_int_less_iff of_int_numeral of_int_power)
  have p_lo: "1 \<le> p" using n1 by (simp add: p_def one_point_four_def)
  have p_hi: "p < 2 ^ 50" using n1 n2 by (simp add: p_def one_point_four_def)
  obtain j N where jN: "3 \<le> j" "to_double False p = Finite False (of_int N / 2 ^ j)"
      "N = round_half_even (p * 2 ^ j)"
    using to_double_small [OF p_lo p_hi] by blast
  have pow: "(8 :: rat) \<le> 2 ^ j"
    using power_increasing [OF jN(1), of "2 :: rat"] by simp
  have exact: "p = of_int n * (14 / 10) - of_int n / 11258999068426240"
    by (simp add: p_def one_point_four_def)
  have p_lt: "p < of_int n * (14 / 10)" using n1 by (simp add: exact)
  have p_gt: "of_int n * (14 / 10) - 1 / 20 < p" using n2 by (simp add: exact)
  have K_hi: "of_int n * (14 / 10 :: rat) \<le> of_int K" unfolding K_def by (rule le_of_int_ceiling)
  have "of_int K - 1 < of_int n * (14 / 10 :: rat)" unfolding K_def by linarith
  then have "(of_int (5 * (K - 1)) :: rat) < of_int (7 * n)" by simp
  then have "5 * (K - 1) < 7 * n" by (simp only: of_int_less_iff)
  then have "5 * (K - 1) + 1 \<le> 7 * n" by simp
  then have "(of_int (5 * (K - 1) + 1) :: rat) \<le> of_int (7 * n)" by (simp only: of_int_le_iff)
  then have K_lo: "of_int K - 1 + 1 / 5 \<le> of_int n * (14 / 10 :: rat)" by simp
  have up: "of_int N / 2 ^ j \<le> (of_int K :: rat)"
  proof -
    have "p * 2 ^ j \<le> of_int K * 2 ^ j" using p_lt K_hi by (simp add: mult_right_mono)
    then have "p * 2 ^ j \<le> of_int (K * 2 ^ j)" by simp
    then have "N \<le> K * 2 ^ j" unfolding jN(3) by (rule round_half_even_upper)
    then have "(of_int N :: rat) \<le> of_int (K * 2 ^ j)" by (simp only: of_int_le_iff)
    then show ?thesis by (simp add: pos_divide_le_eq)
  qed
  have low: "(of_int K :: rat) - 1 < of_int N / 2 ^ j"
  proof -
    have "p * 2 ^ j - 1 / 2 \<le> of_int N" unfolding jN(3) by (rule round_half_even_lower)
    then have "(p * 2 ^ j - 1 / 2) / 2 ^ j \<le> of_int N / 2 ^ j"
      by (simp add: divide_right_mono)
    then have a: "p - 1 / (2 * 2 ^ j) \<le> of_int N / 2 ^ j"
      by (simp add: diff_divide_distrib)
    have "1 / (2 * 2 ^ j) \<le> (1 / 16 :: rat)"
      using pow by (simp add: field_simps)
    then show ?thesis using a p_gt K_lo by linarith
  qed
  have "\<lceil>(of_int N :: rat) / 2 ^ j\<rceil> = K"
    using up low by (intro ceiling_unique) simp_all
  then show ?thesis
    using jN(2) by (simp add: p_def K_def)
qed

lemma double_one_point_four: "double (14 / 10) = Finite False one_point_four"
  by code_simp

lemma integer_price:
  assumes "0 < c" and "0 < r" and "c * r < 2 ^ 49"
  shows "js_ceil (js_mul (js_mul (number_or (Finite False (of_int c)) (Finite False 0))
                                 (Finite False (of_int r)))
                         (double (14 / 10)))
           = Finite False (of_int \<lceil>of_int (c * r) * (14 / 10 :: rat)\<rceil>)"
proof -
  have pos: "0 < c * r" using assms(1,2) by simp
  have "c * r < 2 ^ 50" using assms(3) by simp
  then have base: "to_double False (of_int (c * r)) = Finite False (of_int (c * r))"
    using pos by (intro to_double_integer)
  have "number_or (Finite False (of_int c)) (Finite False 0) = Finite False (of_int c)"
    using assms(1) by (simp add: number_or_def)
  then have m1: "js_mul (number_or (Finite False (of_int c)) (Finite False 0))
        (Finite False (of_int r)) = Finite False (of_int (c * r))"
    using base by simp
  have m2: "js_mul (Finite False (of_int (c * r))) (Finite False one_point_four)
      = to_double False (of_int (c * r) * one_point_four)"
    by simp
  show ?thesis
    unfolding m1 double_one_point_four m2
    by (rule ceil_times_one_point_four [OF pos assms(3)])
qed

subsection \<open>Retail price\<close>

text \<open>
  Claim C2 (retail price), as amended. The price the pipeline publishes for a record is
  \<^verbatim>\<open>Math.ceil\<close> of the product, in double arithmetic, of the record's cost
  (\<^verbatim>\<open>Number(s.price) || 0\<close>), the rate of its provider and 1.4, with no rounding to a
  rounding unit. It is the exact \<open>ceil(c * r * 1.4)\<close> whenever cost \<open>c\<close> and rate \<open>r\<close> are
  positive integers with \<open>c * r < 2^49\<close>; otherwise the double product can lie above the
  exact one: a 5sim record of cost 4.15 under the RUB rate 700 is published at 4068, where
  the exact \<open>ceil(4.15 * 700 * 1.4)\<close> is 4067. The price converter of the read path,
  \<^verbatim>\<open>convertToToman\<close>, multiplies by \<open>1 + margin\<close>, divides by the rounding unit, takes
  \<^verbatim>\<open>Math.ceil\<close> and multiplies by the unit again, each step in double arithmetic. For
  native cost 10, RUB rate 150, margin 0.4 and rounding unit 100 both give 2100.
\<close>

theorem retail_price:
  "(snd (formattedService ctx s) = Some e \<longrightarrow>
      price_toman e =
        js_ceil (js_mul (js_mul (number_or (price s) (Finite False 0))
                                (if provider s = ''sms-activate'' then usdToTomanRate ctx
                                 else rubToTomanRate ctx))
                        (double (14 / 10))))
   \<and> (snd (formattedService ctx s) = Some e \<and> price s = Finite False (of_int n)
        \<and> (if provider s = ''sms-activate'' then usdToTomanRate ctx else rubToTomanRate ctx)
            = Finite False (of_int r)
        \<and> 0 < n \<and> 0 < r \<and> n * r < 2 ^ 49
      \<longrightarrow> price_toman e = Finite False (of_int \<lceil>of_int (n * r) * (14 / 10 :: rat)\<rceil>))
   \<and> convertToToman envMargin envPrecision c currency rs =
        js_mul (js_ceil (js_div
                  (js_mul (js_mul c (if currency = ''RUB'' then rub rs
                                     else if currency = ''USD'' then usd rs else Finite False 1))
                          (js_add (Finite False 1) (PROFIT_MARGIN envMargin)))
                  (ROUNDING_PRECISION envPrecision)))
               (ROUNDING_PRECISION envPrecision)
   \<and> (snd (formattedService ctx s) = Some e \<and> provider s = ''5sim''
        \<and> price s = Finite False 10 \<and> rubToTomanRate ctx = Finite False 150
      \<longrightarrow> price_toman e = Finite False 2100)
   \<and> (PROFIT_MARGIN envMargin = double (4 / 10)
        \<and> ROUNDING_PRECISION envPrecision = Finite False 100 \<and> rub rs = Finite False 150
      \<longrightarrow> convertToToman envMargin envPrecision (Finite False 10) ''RUB'' rs = Finite False 2100)
   \<and> (snd (formattedService ctx s) = Some e \<and> provider s = ''5sim''
        \<and> price s = double (415 / 100) \<and> rubToTomanRate ctx = Finite False 700
      \<longrightarrow> price_toman e = Finite False 4068 \<and> \<lceil>(415 / 100) * 700 * (14 / 10) :: rat\<rceil> = 4067)"
proof (intro conjI impI)
  assume "snd (formattedService ctx s) = Some e"
  from formattedService_SomeD(2) [OF this]
  show "price_toman e =
        js_ceil (js_mul (js_mul (number_or (price s) (Finite False 0))
                                (if provider s = ''sms-activate'' then usdToTomanRate ctx
                                 else rubToTomanRate ctx))
                        (double (14 / 10)))"
    by (simp add: basePriceToman_def)
next
  assume a: "snd (formattedService ctx s) = Some e \<and> price s = Finite False (of_int n)
        \<and> (if provider s = ''sms-activate'' then usdToTomanRate ctx else rubToTomanRate ctx)
            = Finite False (of_int r)
        \<and> 0 < n \<and> 0 < r \<and> n * r < 2 ^ 49"
  then have "price_toman e = js_ceil (js_mul (basePriceToman ctx s) (double (14 / 10)))"
    by (intro formattedService_SomeD(2)) simp
  moreover have "basePriceToman ctx s
      = js_mul (number_or (Finite False (of_int n)) (Finite False 0)) (Finite False (of_int r))"
    using a by (auto simp: basePriceToman_def)
  moreover have "js_ceil (js_mul (js_mul (number_or (Finite False (of_int n)) (Finite False 0))
                                 (Finite False (of_int r)))
                         (double (14 / 10)))
           = Finite False (of_int \<lceil>of_int (n * r) * (14 / 10 :: rat)\<rceil>)"
    using a by (intro integer_price) simp_all
  ultimately show "price_toman e = Finite False (of_int \<lceil>of_int (n * r) * (14 / 10 :: rat)\<rceil>)"
    by simp
next
  show "convertToToman envMargin envPrecision c currency rs =
        js_mul (js_ceil (js_div
                  (js_mul (js_mul c (if currency = ''RUB'' then rub rs
                                     else if currency = ''USD'' then usd rs else Finite False 1))
                          (js_add (Finite False 1) (PROFIT_MARGIN envMargin)))
                  (ROUNDING_PRECISION envPrecision)))
               (ROUNDING_PRECISION envPrecision)"
    by (simp only: convertToToman_def Let_def)
next
  assume a: "snd (formattedService ctx s) = Some e \<and> provider s = ''5sim''
        \<and> price s = Finite False 10 \<and> rubToTomanRate ctx = Finite False 150"
  have v: "js_ceil (js_mul (js_mul (number_or (Finite False 10) (Finite False 0)) (Finite False 150))
             (double (14 / 10))) = Finite False 2100"
    by code_simp
  from a have "price_toman e = js_ceil (js_mul (basePriceToman ctx s) (double (14 / 10)))"
    by (intro formattedService_SomeD(2)) simp
  then show "price_toman e = Finite False 2100"
    using a v by (simp add: basePriceToman_def)
next
  assume "PROFIT_MARGIN envMargin = double (4 / 10)
        \<and> ROUNDING_PRECISION envPrecision = Finite False 100 \<and> rub rs = Finite False 150"
  then have m: "PROFIT_MARGIN envMargin = double (4 / 10)"
    and p: "ROUNDING_PRECISION envPrecision = Finite False 100"
    and r: "rub rs = Finite False 150" by blast+
  have v: "js_mul (js_ceil (js_div
              (js_mul (js_mul (Finite False 10) (Finite False 150))
                      (js_add (Finite False 1) (double (4 / 10))))
              (Finite False 100))) (Finite False 100) = Finite False 2100"
    by code_simp
  show "convertToToman envMargin envPrecision (Finite False 10) ''RUB'' rs = Finite False 2100"
    unfolding convertToToman_def Let_def m p r using v by simp
next
  assume a: "snd (formattedService ctx s) = Some e \<and> provider s = ''5sim''
        \<and> price s = double (415 / 100) \<and> rubToTomanRate ctx = Finite False 700"
  have v: "js_ceil (js_mul (js_mul (number_or (double (415 / 100)) (Finite False 0)) (Finite False 700))
             (double (14 / 10))) = Finite False 4068"
    by code_simp
  from a have "price_toman e = js_ceil (js_mul (basePriceToman ctx s) (double (14 / 10)))"
    by (intro formattedService_SomeD(2)) simp
  then show "price_toman e = Finite False 4068"
    using a v by (simp add: basePriceToman_def)
  show "\<lceil>(415 / 100) * 700 * (14 / 10) :: rat\<rceil> = 4067"
    by simp
qed

text \<open>The 5sim record of cost 10 under the RUB rate 150, the converter under its default
  margin and unit, and the record of cost 4.15 under the RUB rate 700.\<close>

theorem retail_price_witness:
  "snd (formattedService demo_context fivesim_telegram) = Some new_entry
   \<and> price_toman new_entry = Finite False 2100
   \<and> price_toman new_entry = Finite False (of_int \<lceil>of_int (10 * 150) * (14 / 10 :: rat)\<rceil>)
   \<and> convertToToman NaN NaN (Finite False 10) ''RUB'' \<lparr>rub = Finite False 150, usd = NaN\<rparr>
       = Finite False 2100
   \<and> (\<exists>e. snd (formattedService (demo_context\<lparr>rubToTomanRate := Finite False 700\<rparr>) fivesim_fraction)
            = Some e \<and> price_toman e = Finite False 4068)"
proof -
  have 1: "provider fivesim_telegram = ''5sim''" "price fivesim_telegram = Finite False 10"
    "rubToTomanRate demo_context = Finite False 150"
    by (simp_all add: fivesim_telegram_def demo_context_def)
  have 2: "PROFIT_MARGIN NaN = double (4 / 10)" "ROUNDING_PRECISION NaN = Finite False 100"
    by (simp_all add: PROFIT_MARGIN_def ROUNDING_PRECISION_def number_or_def)
  have 3: "provider fivesim_fraction = ''5sim''" "price fivesim_fraction = double (415 / 100)"
    "rubToTomanRate (demo_context\<lparr>rubToTomanRate := Finite False 700\<rparr>) = Finite False 700"
    by (simp_all add: fivesim_fraction_def fivesim_cheap_def)
  have 4: "snd (formattedService (demo_context\<lparr>rubToTomanRate := Finite False 700\<rparr>) fivesim_fraction)
      = Some (the (snd (formattedService (demo_context\<lparr>rubToTomanRate := Finite False 700\<rparr>)
            fivesim_fraction)))"
    by code_simp
  have 5: "price fivesim_telegram = Finite False (of_int 10)"
    "(if provider fivesim_telegram = ''sms-activate'' then usdToTomanRate demo_context
      else rubToTomanRate demo_context) = Finite False (of_int 150)"
    "(0 :: int) < 10" "(0 :: int) < 150" "(10 :: int) * 150 < 2 ^ 49"
    by (simp_all add: fivesim_telegram_def demo_context_def)
  have 6: "snd (formattedService demo_context fivesim_telegram) = Some new_entry"
    using formattedService_fivesim_telegram by simp
  note t = retail_price [where ctx = demo_context and s = fivesim_telegram and e = new_entry
      and n = 10 and r = 150 and envMargin = NaN and envPrecision = NaN and c = "Finite False 10"
      and currency = "''RUB''" and rs = "\<lparr>rub = Finite False 150, usd = NaN\<rparr>"]
  have a: "price_toman new_entry = Finite False 2100"
    using t [THEN conjunct2, THEN conjunct2, THEN conjunct2, THEN conjunct1] 1 6 by simp
  have a': "price_toman new_entry = Finite False (of_int \<lceil>of_int (10 * 150) * (14 / 10 :: rat)\<rceil>)"
    using t [THEN conjunct2, THEN conjunct1] 5 6 by blast
  have b: "convertToToman NaN NaN (Finite False 10) ''RUB'' \<lparr>rub = Finite False 150, usd = NaN\<rparr>
       = Finite False 2100"
    using t [THEN conjunct2, THEN conjunct2, THEN conjunct2, THEN conjunct2, THEN conjunct1] 2
    by simp
  note u = retail_price [where ctx = "demo_context\<lparr>rubToTomanRate := Finite False 700\<rparr>"
      and s = fivesim_fraction
      and e = "the (snd (formattedService (demo_context\<lparr>rubToTomanRate := Finite False 700\<rparr>)
                  fivesim_fraction))"]
  have c: "\<exists>e. snd (formattedService (demo_context\<lparr>rubToTomanRate := Finite False 700\<rparr>) fivesim_fraction)
            = Some e \<and> price_toman e = Finite False 4068"
    using u [THEN conjunct2, THEN conjunct2, THEN conjunct2, THEN conjunct2, THEN conjunct2] 3 4
    by blast
  from a a' b c 6 show ?thesis by blast
qed

text \<open>
  The claim as first stated (the published price is rounded up to the rounding unit) fails:
  a 5sim record of cost 1 under the RUB rate 150 is published at 210, where rounding up to
  the unit 100, as \<^verbatim>\<open>convertToToman\<close> does, gives 300.
\<close>

theorem retail_price_not_rounded_counterexample:
  "price fivesim_cheap = Finite False 1 \<and> rubToTomanRate demo_context = Finite False 150
   \<and> map price_toman (formattedServices demo_context [fivesim_cheap]) = [Finite False 210]
   \<and> convertToToman NaN NaN (Finite False 1) ''RUB'' \<lparr>rub = Finite False 150, usd = NaN\<rparr>
       = Finite False 300"
  by code_simp

subsection \<open>Unmappable countries\<close>

lemma unmapped_formattedService:
  assumes "countryMap ctx (generateCanonicalName (runtime ctx)
             (trim (runtime ctx) (toLowerCase (runtime ctx) (country s)))) = None"
  shows "snd (formattedService ctx s) = None"
  using assms
  by (simp add: formattedService_def getCountryDataByCanonicalName_def Let_def)

lemma unknownServiceCodes_normalize_step:
  "unknownServiceCodes (normalize_step ctx st s) =
     (if fst (formattedService ctx s) then insert (service s) (unknownServiceCodes st)
      else unknownServiceCodes st)"
  by (cases "formattedService ctx s")
     (simp add: normalize_step_def split: option.split)

lemma formattedServices_alt:
  "formattedServices ctx raws = flatten (foldl (group_step ctx) [] raws)"
  by (simp add: formattedServices_def serviceMap_foldl initial_state_def)

text \<open>
  Claim C9 (unmappable country), as amended. A raw record whose cleaned country token has a
  canonical key without entry in the unified country map yields no catalog entry and raises
  no exception (the iteration has no failing path: \<open>normalize_step\<close> returns a state for
  every record). The iteration leaves \<^verbatim>\<open>serviceMap\<close> as it was; it returns the state of
  the loop unchanged, or changed only in that the record's service code is added to the set
  of unknown service codes, so that no counter of unmapped countries is kept. The output of
  the run is the output of the run without that record.
\<close>

theorem unmappable_country_dropped:
  assumes "countryMap ctx (generateCanonicalName (runtime ctx)
             (trim (runtime ctx) (toLowerCase (runtime ctx) (country s)))) = None"
  shows "snd (formattedService ctx s) = None
    \<and> serviceMap (normalize_step ctx st s) = serviceMap st
    \<and> (normalize_step ctx st s = st
        \<or> normalize_step ctx st s
            = st\<lparr>unknownServiceCodes := insert (service s) (unknownServiceCodes st)\<rparr>)
    \<and> formattedServices ctx (before @ s # after) = formattedServices ctx (before @ after)"
proof -
  have none: "snd (formattedService ctx s) = None"
    using assms by (rule unmapped_formattedService)
  have "serviceMap (normalize_step ctx st s) = serviceMap st"
    by (simp add: serviceMap_normalize_step group_step_None none)
  moreover have "formattedServices ctx (before @ s # after) = formattedServices ctx (before @ after)"
    by (simp add: formattedServices_alt group_step_None none)
  moreover have "normalize_step ctx st s = st
        \<or> normalize_step ctx st s
            = st\<lparr>unknownServiceCodes := insert (service s) (unknownServiceCodes st)\<rparr>"
    using none by (cases "formattedService ctx s") (simp add: normalize_step_def)
  ultimately show ?thesis
    using none by simp
qed

text \<open>The record from \<open>atlantis\<close> among the records of \<open>demo_raws\<close>.\<close>

theorem unmappable_country_dropped_witness:
  "countryMap demo_context (generateCanonicalName (runtime demo_context)
      (trim (runtime demo_context) (toLowerCase (runtime demo_context) (country fivesim_atlantis))))
     = None
   \<and> snd (formattedService demo_context fivesim_atlantis) = None
   \<and> formattedServices demo_context demo_raws
       = formattedServices demo_context [fivesim_telegram, smsactivate_telegram, fivesim_free]"
proof -
  have 1: "countryMap demo_context (generateCanonicalName (runtime demo_context)
      (trim (runtime demo_context) (toLowerCase (runtime demo_context) (country fivesim_atlantis))))
     = None"
    by code_simp
  from unmappable_country_dropped [OF 1, of initial_state "[fivesim_telegram, smsactivate_telegram]"
      "[fivesim_free]"] 1
  show ?thesis by (simp add: demo_raws_def)
qed

text \<open>
  The claim as first stated (an ``unmapped'' counter is incremented) fails: for the record
  from \<open>atlantis\<close>, whose service is known, the iteration returns the state of the loop
  unchanged, so nothing has counted the record.
\<close>

theorem unmapped_counter_counterexample:
  "getCountryDataByCanonicalName (runtime demo_context) (countryMap demo_context)
      (trim (runtime demo_context) (toLowerCase (runtime demo_context) (country fivesim_atlantis)))
     = None
   \<and> normalize_step demo_context initial_state fivesim_atlantis = initial_state"
  by code_simp

text \<open>A service token that names an inherited property of the priority table: the read
  returns the function \<^verbatim>\<open>Object\<close>, the service is displayed as \<open>Object\<close> and is not counted
  as unknown.\<close>

lemma inherited_priority_entry:
  "fst (formattedService demo_context fivesim_constructor) = False
   \<and> map_option service_persian (snd (formattedService demo_context fivesim_constructor))
       = Some (Str ''Object'')"
  by code_simp

subsection \<open>Identity strings\<close>

lemma unjoin:
  "CHR ''_'' \<notin> set a \<Longrightarrow> CHR ''_'' \<notin> set a' \<Longrightarrow> a @ CHR ''_'' # r = a' @ CHR ''_'' # r'
    \<Longrightarrow> a = a' \<and> r = r'"
proof (induction a arbitrary: a')
  case Nil
  then show ?case by (cases a') auto
next
  case (Cons c a)
  then show ?case by (cases a') auto
qed

lemma identity_inj:
  assumes a: "CHR ''_'' \<notin> set (trim rt (toLowerCase rt (service a)))
        \<and> CHR ''_'' \<notin> set (trim rt (toLowerCase rt (country a))) \<and> CHR ''_'' \<notin> set (operator a)"
    and b: "CHR ''_'' \<notin> set (trim rt (toLowerCase rt (service b)))
        \<and> CHR ''_'' \<notin> set (trim rt (toLowerCase rt (country b))) \<and> CHR ''_'' \<notin> set (operator b)"
    and eq: "identity rt a = identity rt b"
  shows "identity_key rt a = identity_key rt b"
proof -
  let ?S = "\<lambda>s. trim rt (toLowerCase rt (service s))"
    and ?C = "\<lambda>s. trim rt (toLowerCase rt (country s))"
  from eq have 0: "?S a @ CHR ''_'' # (?C a @ CHR ''_'' # (operator a @ CHR ''_'' # provider a))
      = ?S b @ CHR ''_'' # (?C b @ CHR ''_'' # (operator b @ CHR ''_'' # provider b))"
    by (simp add: identity_def)
  have 1: "?S a = ?S b \<and> ?C a @ CHR ''_'' # (operator a @ CHR ''_'' # provider a)
      = ?C b @ CHR ''_'' # (operator b @ CHR ''_'' # provider b)"
    using a b by (intro unjoin [OF _ _ 0]) simp_all
  then have 2: "?C a = ?C b \<and> operator a @ CHR ''_'' # provider a = operator b @ CHR ''_'' # provider b"
    using a b by (intro unjoin) simp_all
  then have "operator a = operator b \<and> provider a = provider b"
    using a b by (intro unjoin) simp_all
  with 1 2 show ?thesis by (simp add: identity_key_def)
qed

lemma identity_key_determines:
  "identity_key rt a = identity_key rt b \<Longrightarrow> identity rt a = identity rt b"
  by (simp add: identity_key_def identity_def)

lemma map_id_entered:
  "map id_e (entered ctx raws)
     = map (identity (runtime ctx)) (filter (\<lambda>s. snd (formattedService ctx s) \<noteq> None) raws)"
proof (induction raws)
  case Nil
  show ?case by (simp add: entered_Nil)
next
  case (Cons s raws)
  show ?case
  proof (cases "snd (formattedService ctx s)")
    case None
    then show ?thesis by (simp add: entered_Cons Cons.IH)
  next
    case (Some e)
    then show ?thesis
      using formattedService_SomeD(4) [OF Some] by (simp add: entered_Cons Cons.IH)
  qed
qed

lemma mset_ids:
  "mset (map id_e (formattedServices ctx raws))
     = mset (map (identity (runtime ctx)) (filter (\<lambda>s. snd (formattedService ctx s) \<noteq> None) raws))"
proof -
  have "mset (map id_e (formattedServices ctx raws)) = mset (map id_e (entered ctx raws))"
    by (simp add: mset_formattedServices)
  then show ?thesis by (simp only: map_id_entered)
qed

text \<open>
  Claim C6 (identity strings), as amended. The identity string is a function of the
  provider, the operator and the trimmed, lower-cased service and country tokens. The loop
  does not remove or reject an entry whose identity string is already taken: the identity
  strings of the formatted entries are those of the records that pass the drop filters, each
  as often as it occurs among them. When the raw records of a run differ pairwise in that
  four-tuple and no trimmed, lower-cased service or country token and no operator token
  contains the separator \<open>_\<close>, no two formatted entries share an identity string.
\<close>

theorem identity_unique:
  "(\<forall>a b. identity_key (runtime ctx) a = identity_key (runtime ctx) b
        \<longrightarrow> identity (runtime ctx) a = identity (runtime ctx) b)
   \<and> mset (map id_e (formattedServices ctx raws))
        = mset (map (identity (runtime ctx))
                 (filter (\<lambda>s. snd (formattedService ctx s) \<noteq> None) raws))
   \<and> (\<forall>e\<in>set (formattedServices ctx raws).
          \<exists>s\<in>set raws. snd (formattedService ctx s) = Some e \<and> id_e e = identity (runtime ctx) s)
   \<and> (distinct (map (identity_key (runtime ctx)) raws)
        \<and> (\<forall>s\<in>set raws.
              CHR ''_'' \<notin> set (trim (runtime ctx) (toLowerCase (runtime ctx) (service s)))
              \<and> CHR ''_'' \<notin> set (trim (runtime ctx) (toLowerCase (runtime ctx) (country s)))
              \<and> CHR ''_'' \<notin> set (operator s))
      \<longrightarrow> distinct (map id_e (formattedServices ctx raws)))"
proof (intro conjI ballI allI impI)
  fix a b :: raw_offering
  assume "identity_key (runtime ctx) a = identity_key (runtime ctx) b"
  then show "identity (runtime ctx) a = identity (runtime ctx) b"
    by (rule identity_key_determines)
next
  show "mset (map id_e (formattedServices ctx raws))
        = mset (map (identity (runtime ctx))
                 (filter (\<lambda>s. snd (formattedService ctx s) \<noteq> None) raws))"
    by (rule mset_ids)
next
  fix e assume "e \<in> set (formattedServices ctx raws)"
  then obtain s where s: "s \<in> set raws" "snd (formattedService ctx s) = Some e"
    by (auto simp: set_formattedServices)
  then show "\<exists>s\<in>set raws. snd (formattedService ctx s) = Some e \<and> id_e e = identity (runtime ctx) s"
    using formattedService_SomeD(4) [OF s(2)] by blast
next
  assume asm: "distinct (map (identity_key (runtime ctx)) raws)
        \<and> (\<forall>s\<in>set raws.
              CHR ''_'' \<notin> set (trim (runtime ctx) (toLowerCase (runtime ctx) (service s)))
              \<and> CHR ''_'' \<notin> set (trim (runtime ctx) (toLowerCase (runtime ctx) (country s)))
              \<and> CHR ''_'' \<notin> set (operator s))"
  have d: "distinct raws" and inj: "inj_on (identity_key (runtime ctx)) (set raws)"
    using asm by (simp_all add: distinct_map)
  have "inj_on (identity (runtime ctx)) (set raws)"
  proof (rule inj_onI)
    fix a b assume ab: "a \<in> set raws" "b \<in> set raws"
      "identity (runtime ctx) a = identity (runtime ctx) b"
    then have "identity_key (runtime ctx) a = identity_key (runtime ctx) b"
      using asm by (intro identity_inj) auto
    then show "a = b" using inj ab by (auto dest: inj_onD)
  qed
  then have "distinct (map (identity (runtime ctx)) raws)"
    using d by (simp add: distinct_map)
  then have "distinct (map (identity (runtime ctx))
      (filter (\<lambda>s. snd (formattedService ctx s) \<noteq> None) raws))"
    by (rule distinct_map_filter)
  then show "distinct (map id_e (formattedServices ctx raws))"
    using mset_ids [of ctx raws] by (metis mset_eq_imp_distinct_iff)
qed

text \<open>The records of \<open>demo_raws\<close> differ in the four-tuple and contain no \<open>_\<close>.\<close>

theorem identity_unique_witness:
  "distinct (map (identity_key (runtime demo_context)) demo_raws)
   \<and> map id_e (formattedServices demo_context demo_raws)
       = [''srv_telegram_russia_any_5sim'', ''srv_tg_russia_any_sms-activate'']
   \<and> distinct (map id_e (formattedServices demo_context demo_raws))"
proof -
  have 1: "distinct (map (identity_key (runtime demo_context)) demo_raws)"
    by code_simp
  have 2: "\<forall>s\<in>set demo_raws.
           CHR ''_'' \<notin> set (trim (runtime demo_context) (toLowerCase (runtime demo_context) (service s)))
           \<and> CHR ''_'' \<notin> set (trim (runtime demo_context) (toLowerCase (runtime demo_context) (country s)))
           \<and> CHR ''_'' \<notin> set (operator s)"
    by code_simp
  have 3: "map id_e (formattedServices demo_context demo_raws)
       = [''srv_telegram_russia_any_5sim'', ''srv_tg_russia_any_sms-activate'']"
    by code_simp
  from identity_unique [of demo_context demo_raws] 1 2 3 show ?thesis by blast
qed

text \<open>
  The claim as first stated (injective for all raw inputs) fails: two 5sim records that
  differ in service and operator, \<open>vk\<close> with operator \<open>russia_any\<close> and \<open>vk_russia\<close> with
  operator \<open>any\<close>, both in \<open>russia\<close>, are formatted to two entries with one identity string.
\<close>

theorem identity_collision_counterexample:
  "identity_key (runtime demo_context) fivesim_vk_a \<noteq> identity_key (runtime demo_context) fivesim_vk_b
   \<and> map service_e (formattedServices demo_context [fivesim_vk_a, fivesim_vk_b]) = [''vk'', ''vk_russia'']
   \<and> map id_e (formattedServices demo_context [fivesim_vk_a, fivesim_vk_b])
       = [''srv_vk_russia_russia_any_5sim'', ''srv_vk_russia_russia_any_5sim'']"
  by code_simp

subsection \<open>Country resolver\<close>

lemma add_provider_country_from_tables:
  assumes "\<forall>k e. m k = Some e \<longrightarrow> from_tables rt T C k e"
    and "add_provider_country rt T C m entry k = Some e"
  shows "from_tables rt T C k e"
proof (cases "m k = Some e")
  case True
  then show ?thesis using assms(1) by blast
next
  case False
  let ?c = "generateCanonicalName rt (snd entry)"
  from False assms(2) have new: "truthy (read T ?c)" "truthy (read C ?c)" "k = ?c"
      "e = \<lparr>persian = read T ?c, code = read C ?c, original = snd entry\<rparr>"
    by (auto simp: add_provider_country_def Let_def split: if_splits)
  then show ?thesis by (simp add: from_tables_def)
qed

lemma add_translation_from_tables:
  assumes "\<forall>k e. m k = Some e \<longrightarrow> from_tables rt T C k e"
    and "key \<in> set (keys_of T)"
    and "add_translation rt T C m key k = Some e"
  shows "from_tables rt T C k e"
proof (cases "m k = Some e")
  case True
  then show ?thesis using assms(1) by blast
next
  case False
  let ?c = "generateCanonicalName rt key"
  from False assms(3) have new: "truthy (read C ?c)" "k = ?c"
      "e = \<lparr>persian = read T key, code = read C ?c, original = key\<rparr>"
    by (auto simp: add_translation_def Let_def split: if_splits)
  then show ?thesis
    using assms(2) by (auto simp: from_tables_def)
qed

lemma foldl_add_provider_country:
  "\<forall>k e. m k = Some e \<longrightarrow> from_tables rt T C k e
    \<Longrightarrow> \<forall>k e. foldl (add_provider_country rt T C) m P k = Some e \<longrightarrow> from_tables rt T C k e"
proof (induction P arbitrary: m)
  case Nil
  then show ?case by simp
next
  case (Cons entry P)
  have "\<forall>k e. add_provider_country rt T C m entry k = Some e \<longrightarrow> from_tables rt T C k e"
    using add_provider_country_from_tables [OF Cons.prems] by blast
  from Cons.IH [OF this] show ?case by simp
qed

lemma foldl_add_translation:
  "\<forall>k e. m k = Some e \<longrightarrow> from_tables rt T C k e \<Longrightarrow> set ks \<subseteq> set (keys_of T)
    \<Longrightarrow> \<forall>k e. foldl (add_translation rt T C) m ks k = Some e \<longrightarrow> from_tables rt T C k e"
proof (induction ks arbitrary: m)
  case Nil
  then show ?case by simp
next
  case (Cons key ks)
  have "key \<in> set (keys_of T)" using Cons.prems(2) by simp
  then have "\<forall>k e. add_translation rt T C m key k = Some e \<longrightarrow> from_tables rt T C k e"
    using add_translation_from_tables [OF Cons.prems(1)] by blast
  moreover have "set ks \<subseteq> set (keys_of T)" using Cons.prems(2) by simp
  ultimately show ?case using Cons.IH by simp
qed

lemma unifiedCountryMap_from_tables:
  "unifiedCountryMap rt P T C k = Some e \<Longrightarrow> from_tables rt T C k e"
proof -
  have "\<forall>k e. (Map.empty :: string \<rightharpoonup> country_data) k = Some e \<longrightarrow> from_tables rt T C k e"
    by simp
  then have "\<forall>k e. foldl (add_provider_country rt T C) Map.empty P k = Some e
      \<longrightarrow> from_tables rt T C k e"
    by (rule foldl_add_provider_country)
  then have "\<forall>k e. unifiedCountryMap rt P T C k = Some e \<longrightarrow> from_tables rt T C k e"
    unfolding unifiedCountryMap_def by (rule foldl_add_translation) simp
  then show "unifiedCountryMap rt P T C k = Some e \<Longrightarrow> from_tables rt T C k e" by blast
qed

text \<open>
  Claim C10 (gap of the resolver), as amended. Every entry stored in the unified country map
  carries a truthy code, the value read from the code table under the entry's key, and a
  display name read from the translation table: the truthy value under the entry's key, or
  the value under an enumerated key with that canonical name. A country name is wholly
  absent from the map when the read of the code table under its canonical key is falsy, or
  when the read of the translation table under its canonical key is falsy and no enumerated
  key of the translation table has its canonical name; then the lookup returns not-found
  and every record whose country has that canonical key is dropped.
\<close>

theorem unifiedCountryMap_gap:
  "(unifiedCountryMap rt P T C k = Some e \<longrightarrow>
      truthy (code e) \<and> code e = read C k
      \<and> (truthy (persian e) \<and> persian e = read T k
          \<or> (\<exists>key\<in>set (keys_of T). generateCanonicalName rt key = k \<and> persian e = read T key)))
   \<and> (\<not> truthy (read C (generateCanonicalName rt name))
        \<or> (\<not> truthy (read T (generateCanonicalName rt name))
            \<and> (\<forall>key\<in>set (keys_of T). generateCanonicalName rt key \<noteq> generateCanonicalName rt name))
      \<longrightarrow> unifiedCountryMap rt P T C (generateCanonicalName rt name) = None
          \<and> getCountryDataByCanonicalName rt (unifiedCountryMap rt P T C) name = None
          \<and> (\<forall>s. runtime ctx = rt \<and> countryMap ctx = unifiedCountryMap rt P T C
                  \<and> generateCanonicalName rt (trim rt (toLowerCase rt (country s)))
                      = generateCanonicalName rt name
                \<longrightarrow> snd (formattedService ctx s) = None))"
proof (intro conjI impI)
  assume "unifiedCountryMap rt P T C k = Some e"
  then have "from_tables rt T C k e" by (rule unifiedCountryMap_from_tables)
  then show "truthy (code e)" "code e = read C k"
    "truthy (persian e) \<and> persian e = read T k
      \<or> (\<exists>key\<in>set (keys_of T). generateCanonicalName rt key = k \<and> persian e = read T key)"
    unfolding from_tables_def by blast+
next
  let ?k = "generateCanonicalName rt name"
  assume gap: "\<not> truthy (read C ?k)
        \<or> (\<not> truthy (read T ?k) \<and> (\<forall>key\<in>set (keys_of T). generateCanonicalName rt key \<noteq> ?k))"
  show none: "unifiedCountryMap rt P T C ?k = None"
  proof (cases "unifiedCountryMap rt P T C ?k")
    case None
    then show ?thesis .
  next
    case (Some e)
    then have "from_tables rt T C ?k e" by (rule unifiedCountryMap_from_tables)
    then have False using gap by (force simp: from_tables_def)
    then show ?thesis ..
  qed
  then show "getCountryDataByCanonicalName rt (unifiedCountryMap rt P T C) name = None"
    by (simp add: getCountryDataByCanonicalName_def)
  show "\<forall>s. runtime ctx = rt \<and> countryMap ctx = unifiedCountryMap rt P T C
            \<and> generateCanonicalName rt (trim rt (toLowerCase rt (country s))) = ?k
          \<longrightarrow> snd (formattedService ctx s) = None"
    using none by (auto intro: unmapped_formattedService)
qed

text \<open>Russia has a translation and a code; Ukraine has a translation and no code.\<close>

theorem unifiedCountryMap_gap_witness:
  "unifiedCountryMap ascii_runtime demo_countries demo_translations demo_codes ''russia''
      = Some \<lparr>persian = Str ''Rusiye'', code = Str ''RU'', original = ''Russia''\<rparr>
   \<and> read demo_codes ''russia'' = Str ''RU''
   \<and> \<not> truthy (read demo_codes (generateCanonicalName ascii_runtime ''Ukraine''))
   \<and> unifiedCountryMap ascii_runtime demo_countries demo_translations demo_codes
        (generateCanonicalName ascii_runtime ''Ukraine'') = None
   \<and> getCountryDataByCanonicalName ascii_runtime
        (unifiedCountryMap ascii_runtime demo_countries demo_translations demo_codes) ''Ukraine''
       = None"
proof -
  have 1: "unifiedCountryMap ascii_runtime demo_countries demo_translations demo_codes ''russia''
      = Some \<lparr>persian = Str ''Rusiye'', code = Str ''RU'', original = ''Russia''\<rparr>"
    by code_simp
  have 2: "\<not> truthy (read demo_codes (generateCanonicalName ascii_runtime ''Ukraine''))"
    by code_simp
  from unifiedCountryMap_gap [of ascii_runtime demo_countries demo_translations demo_codes "''russia''"
      "\<lparr>persian = Str ''Rusiye'', code = Str ''RU'', original = ''Russia''\<rparr>" "''Ukraine''"
      demo_context] 1 2
  show ?thesis by simp
qed

text \<open>
  The claim as first stated fails where the translation table is keyed by display names:
  \<open>Ivory Coast\<close> of the provider's list has no translation under its canonical key
  \<open>ivorycoast\<close>, and the second loop still stores it, under that key.
\<close>

theorem unifiedCountryMap_gap_counterexample:
  "(''27'', ''Ivory Coast'') \<in> set ivory_countries
   \<and> generateCanonicalName ascii_runtime ''Ivory Coast'' = ''ivorycoast''
   \<and> read ivory_translations ''ivorycoast'' = Undefined
   \<and> unifiedCountryMap ascii_runtime ivory_countries ivory_translations ivory_codes ''ivorycoast''
       = Some \<lparr>persian = Str ''Sahel-e Aj'', code = Str ''CI'', original = ''Ivory Coast''\<rparr>"
  by code_simp

text \<open>A provider country whose canonical name is that of an inherited property: both reads
  return the function \<^verbatim>\<open>Object\<close>, which is truthy, and the first loop stores an entry,
  although neither table has such a key.\<close>

lemma inherited_country_entry:
  "unifiedCountryMap ascii_runtime [(''9'', ''Constructor'')] demo_translations demo_codes
     ''constructor''
     = Some \<lparr>persian = Other True ''function Object() { [native code] }'',
             code = Other True ''function Object() { [native code] }'',
             original = ''Constructor''\<rparr>"
  by code_simp

subsection \<open>Catalog publisher\<close>

text \<open>
  Claim C1 (atomic visibility of publish) does not hold of the code. From a live catalog of
  one document, the publish of a new batch reaches, after \<^verbatim>\<open>dropCollection\<close> and before
  \<^verbatim>\<open>renameCollection\<close>, a state in which a reader of \<open>services\<close> sees no document: neither
  the prior set nor the new one. Only the next step makes the new set visible.
\<close>

theorem publish_exposes_missing_catalog:
  "find_all ''services'' live_store = [old_entry]
   \<and> (publish_step (\<lambda>d. True) [new_entry])\<^sup>*\<^sup>* (Clearing, live_store)
        (Renaming, dropCollection ''services''
           (insertMany (\<lambda>d. True) ''service_temps'' [new_entry]
              (deleteMany ''service_temps'' live_store)))
   \<and> find_all ''services'' (dropCollection ''services''
        (insertMany (\<lambda>d. True) ''service_temps'' [new_entry]
           (deleteMany ''service_temps'' live_store))) = []
   \<and> (\<exists>db. publish_step (\<lambda>d. True) [new_entry]
          (Renaming, dropCollection ''services''
             (insertMany (\<lambda>d. True) ''service_temps'' [new_entry]
                (deleteMany ''service_temps'' live_store)))
          (Published, db)
        \<and> find_all ''services'' db = [new_entry])"
proof (intro conjI)
  let ?ins = "insertMany (\<lambda>d. True) ''service_temps'' [new_entry] (deleteMany ''service_temps'' live_store)"
  show "find_all ''services'' live_store = [old_entry]"
    by (simp add: find_all_def live_store_def)
  have "publish_step (\<lambda>d. True) [new_entry] (Clearing, live_store)
          (Inserting, deleteMany ''service_temps'' live_store)"
    by (rule publish_step.clear)
  moreover have "publish_step (\<lambda>d. True) [new_entry] (Inserting, deleteMany ''service_temps'' live_store)
          (Dropping, ?ins)"
    by (rule publish_step.insert)
  moreover have "publish_step (\<lambda>d. True) [new_entry] (Dropping, ?ins)
          (Renaming, dropCollection ''services'' ?ins)"
    by (rule publish_step.drop)
  ultimately show "(publish_step (\<lambda>d. True) [new_entry])\<^sup>*\<^sup>* (Clearing, live_store)
        (Renaming, dropCollection ''services'' ?ins)"
    by (meson rtranclp.rtrancl_into_rtrancl rtranclp.rtrancl_refl)
  show "find_all ''services'' (dropCollection ''services'' ?ins) = []"
    by (simp add: find_all_def dropCollection_def)
  have "renameCollection ''service_temps'' ''services'' (dropCollection ''services'' ?ins)
      = Inr ((dropCollection ''services'' ?ins)(''service_temps'' := None, ''services'' \<mapsto> [new_entry]))"
    by (simp add: renameCollection_def dropCollection_def insertMany_def deleteMany_def live_store_def)
  then have "publish_step (\<lambda>d. True) [new_entry] (Renaming, dropCollection ''services'' ?ins)
      (Published, (dropCollection ''services'' ?ins)(''service_temps'' := None, ''services'' \<mapsto> [new_entry]))"
    by (rule publish_step.rename)
  moreover have "find_all ''services''
      ((dropCollection ''services'' ?ins)(''service_temps'' := None, ''services'' \<mapsto> [new_entry])) = [new_entry]"
    by (simp add: find_all_def)
  ultimately show "\<exists>db. publish_step (\<lambda>d. True) [new_entry]
          (Renaming, dropCollection ''services'' ?ins) (Published, db)
        \<and> find_all ''services'' db = [new_entry]"
    by blast
qed

end
